theory Spec2Isabelle
  imports Complex_Main
begin

section \<open>JavaScript values\<close>

text \<open>
  The validator of \<^verbatim>\<open>src/javascriptObjectValidator.js\<close> reads an arbitrary JavaScript
  value. Numbers are IEEE doubles; the validator never computes with them, it only compares
  them and tests their truthiness, so a number is the not-a-number value, an infinity,
  negative zero or a finite value (\<open>Val 0\<close> is positive zero).
\<close>

datatype jsnum = NaN | Infinity | NegInfinity | NegZero | Val rat

text \<open>
  An object (a plain object, an array, a function) is its identity together with its own
  data properties, an association list in which the first binding of a name counts. The
  validated value is only read, so it is an immutable tree; two objects are the same
  object when their identities agree. Symbols and big integers are not modelled. A string
  is a list of code units below 256.
\<close>

type_synonym addr = nat

datatype jsval =
    Undefined
  | Null
  | Bool bool
  | Num jsnum
  | Str string
  | Obj addr "(string \<times> jsval) list"

text \<open>
  An exception is a type error that the language raises, or a value that code outside the
  validator throws: an accessor or a proxy trap of the validated value.
\<close>

datatype js_error = TypeError | Thrown jsval

text \<open>
  What a property read does when the value has no own data property of that name: the
  members inherited through the prototype chain, the built-in members of primitives (the
  length and the indices of a string), and the accessors and proxy traps, which may throw.
  It belongs to the environment, so the model takes it as a parameter; it yields
  \<open>Undefined\<close> where there is no such member. A read changes nothing: an accessor
  that writes to a descriptor is not modelled.
\<close>

type_synonym proto = "jsval \<Rightarrow> string \<Rightarrow> js_error + jsval"

text \<open>The environment in which no name is inherited and nothing throws.\<close>

definition no_proto :: proto where
  "no_proto v k = Inr Undefined"

text \<open>\<^verbatim>\<open>curVal[property]\<close>: reading a property of undefined or null throws.\<close>

fun get_prop :: "proto \<Rightarrow> jsval \<Rightarrow> string \<Rightarrow> js_error + jsval" where
  "get_prop pr Undefined k = Inl TypeError"
| "get_prop pr Null k = Inl TypeError"
| "get_prop pr (Obj a ps) k =
     (case map_of ps k of Some v \<Rightarrow> Inr v | None \<Rightarrow> pr (Obj a ps) k)"
| "get_prop pr v k = pr v k"

text \<open>The truthiness of a value, as \<^verbatim>\<open>if (x)\<close> and \<^verbatim>\<open>!x\<close> test it.\<close>

fun truthy :: "jsval \<Rightarrow> bool" where
  "truthy Undefined = False"
| "truthy Null = False"
| "truthy (Bool b) = b"
| "truthy (Num n) = (n \<noteq> NaN \<and> n \<noteq> NegZero \<and> n \<noteq> Val 0)"
| "truthy (Str s) = (s \<noteq> [])"
| "truthy (Obj a ps) = True"

text \<open>
  \<^verbatim>\<open>Array.prototype.includes\<close> compares with SameValueZero: not-a-number equals
  itself, the two zeros are equal, objects are compared by identity.
\<close>

fun is_zero :: "jsnum \<Rightarrow> bool" where
  "is_zero NegZero = True"
| "is_zero (Val q) = (q = 0)"
| "is_zero n = False"

fun same_value_zero :: "jsval \<Rightarrow> jsval \<Rightarrow> bool" where
  "same_value_zero Undefined Undefined = True"
| "same_value_zero Null Null = True"
| "same_value_zero (Bool a) (Bool b) = (a = b)"
| "same_value_zero (Num m) (Num n) = (m = n \<or> (is_zero m \<and> is_zero n))"
| "same_value_zero (Str s) (Str t) = (s = t)"
| "same_value_zero (Obj a ps) (Obj b qs) = (a = b)"
| "same_value_zero v w = False"

definition array_includes :: "jsval list \<Rightarrow> jsval \<Rightarrow> bool" where
  "array_includes xs v = list_ex (\<lambda>x. same_value_zero x v) xs"

text \<open>
  The strict equality \<^verbatim>\<open>===\<close> of the language, written out from its own rules and
  not from the membership test that is compared with it: two numbers are equal when
  neither is not-a-number and they are the same value or both a zero; other values are
  equal when they have the same type and the same value, objects the same identity.
\<close>

fun number_equals :: "jsnum \<Rightarrow> jsnum \<Rightarrow> bool" where
  "number_equals NaN n = False"
| "number_equals m NaN = False"
| "number_equals NegZero n = (n = NegZero \<or> n = Val 0)"
| "number_equals m NegZero = (m = Val 0)"
| "number_equals m n = (m = n)"

fun strict_equals :: "jsval \<Rightarrow> jsval \<Rightarrow> bool" where
  "strict_equals Undefined w = (w = Undefined)"
| "strict_equals Null w = (w = Null)"
| "strict_equals (Bool a) w = (w = Bool a)"
| "strict_equals (Str s) w = (w = Str s)"
| "strict_equals (Num m) w = (case w of Num n \<Rightarrow> number_equals m n | _ \<Rightarrow> False)"
| "strict_equals (Obj a ps) w = (case w of Obj b qs \<Rightarrow> a = b | _ \<Rightarrow> False)"

section \<open>Strings\<close>

text \<open>\<^verbatim>\<open>propertyString.split('.')\<close>: the result is never empty.\<close>

fun split_dot :: "string \<Rightarrow> string list" where
  "split_dot [] = [[]]"
| "split_dot (c # cs) =
     (if c = CHR ''.'' then [] # split_dot cs
      else (case split_dot cs of
              [] \<Rightarrow> [[c]]
            | w # ws \<Rightarrow> (c # w) # ws))"

text \<open>
  \<^verbatim>\<open>String.prototype.trim\<close> removes white space and line terminators from both ends;
  below 256 these are the code units 9 to 13, 32 and 160.
\<close>

definition is_white_space :: "char \<Rightarrow> bool" where
  "is_white_space c =
     (c = CHR 0x09 \<or> c = CHR 0x0A \<or> c = CHR 0x0B \<or> c = CHR 0x0C \<or> c = CHR 0x0D
      \<or> c = CHR 0x20 \<or> c = CHR 0xA0)"

definition trim :: "string \<Rightarrow> string" where
  "trim s = rev (dropWhile is_white_space (rev (dropWhile is_white_space s)))"

section \<open>Property descriptors\<close>

text \<open>
  The \<^verbatim>\<open>required\<close> field of a descriptor is an array or something else
  (\<^verbatim>\<open>Array.isArray\<close> tells them apart). Its elements, or the field itself when it is no
  array, are path strings; \<open>None\<close> is \<^verbatim>\<open>undefined\<close>, which is what reading an absent
  field yields. Other values are not modelled.
\<close>

datatype required_field = Single "string option" | Many "string option list"

text \<open>
  \<^verbatim>\<open>invalidValues\<close> is absent (\<open>None\<close>) or an array; \<^verbatim>\<open>error\<close> is any value,
  \<open>Undefined\<close> when the field is absent. A descriptor is a plain object, whose fields
  are data; it may be frozen, or its \<^verbatim>\<open>required\<close> property read-only, and
  \<open>required_writable\<close> tells whether an assignment to that property succeeds.
\<close>

record descriptor =
  required :: required_field
  invalidValues :: "jsval list option"
  error :: jsval
  required_writable :: bool

text \<open>
  Descriptors are mutable objects that the caller keeps: the store gives the descriptor
  object at each address, and the descriptor list is a list of addresses, so that one
  descriptor may occur in it twice. The validated value is not one of them.
\<close>

type_synonym store = "addr \<Rightarrow> descriptor"

section \<open>doesObjectHaveProperty\<close>

text \<open>
  The \<^verbatim>\<open>every\<close> loop over the split path, with the variables \<^verbatim>\<open>curVal\<close> and
  \<^verbatim>\<open>containsProperty\<close> it assigns: it stops at the first segment whose value is
  undefined or null.
\<close>

fun every_property :: "proto \<Rightarrow> jsval \<Rightarrow> string list \<Rightarrow> bool \<Rightarrow> js_error + (jsval \<times> bool)" where
  "every_property pr curVal [] containsProperty = Inr (curVal, containsProperty)"
| "every_property pr curVal (property # rest) containsProperty =
     (case get_prop pr curVal property of
        Inl e \<Rightarrow> Inl e
      | Inr v \<Rightarrow>
          if v \<noteq> Undefined \<and> v \<noteq> Null then every_property pr v rest True
          else Inr (v, False))"

text \<open>Calling \<^verbatim>\<open>split\<close> on \<^verbatim>\<open>undefined\<close> throws.\<close>

definition doesObjectHaveProperty ::
  "proto \<Rightarrow> jsval \<Rightarrow> string option \<Rightarrow> jsval list option \<Rightarrow> js_error + bool" where
  "doesObjectHaveProperty pr curVal propertyString invalidVals =
     (case propertyString of
        None \<Rightarrow> Inl TypeError
      | Some s \<Rightarrow>
          (case every_property pr curVal (split_dot s) True of
             Inl e \<Rightarrow> Inl e
           | Inr (v, containsProperty) \<Rightarrow>
               Inr (containsProperty \<and>
                    (case invalidVals of
                       None \<Rightarrow> True
                     | Some xs \<Rightarrow> \<not> array_includes xs v))))"

section \<open>doesObjectHaveAny\<close>

text \<open>
  The \<^verbatim>\<open>some\<close> loop over the required paths with the variable \<^verbatim>\<open>result\<close>, which
  starts as \<^verbatim>\<open>null\<close>: it stops at the first path that is valid.
\<close>

fun some_required ::
  "proto \<Rightarrow> jsval \<Rightarrow> jsval list option \<Rightarrow> string option list \<Rightarrow> jsval \<Rightarrow> js_error + jsval" where
  "some_required pr object invalidVals [] result = Inr result"
| "some_required pr object invalidVals (requiredProperty # rest) result =
     (case doesObjectHaveProperty pr object requiredProperty invalidVals of
        Inl e \<Rightarrow> Inl e
      | Inr r \<Rightarrow>
          if r then Inr (Bool r)
          else some_required pr object invalidVals rest (Bool r))"

text \<open>A \<^verbatim>\<open>required\<close> field that is no array has no \<^verbatim>\<open>some\<close> method.\<close>

definition doesObjectHaveAny :: "proto \<Rightarrow> jsval \<Rightarrow> descriptor \<Rightarrow> js_error + jsval" where
  "doesObjectHaveAny pr object requiredPropertyDescriptor =
     (case required requiredPropertyDescriptor of
        Single p \<Rightarrow> Inl TypeError
      | Many paths \<Rightarrow>
          some_required pr object (invalidValues requiredPropertyDescriptor) paths Null)"

section \<open>The validator\<close>

text \<open>
  An entry of the \<^verbatim>\<open>errors\<close> array: the \<^verbatim>\<open>error\<close> value of the descriptor itself, or
  the newly created object \<^verbatim>\<open>{message: m}\<close>.
\<close>

datatype error_payload = Supplied jsval | Generated string

record validation_result =
  valid :: bool
  errors :: "error_payload list"

text \<open>
  The normalisation of the descriptor at an address: a \<^verbatim>\<open>required\<close> field that is no
  array is replaced by the array that holds it. The file is strict code, so the
  assignment throws when the property cannot be written.
\<close>

definition normalize_required :: "store \<Rightarrow> addr \<Rightarrow> js_error + store" where
  "normalize_required st a =
     (case required (st a) of
        Many paths \<Rightarrow> Inr st
      | Single p \<Rightarrow>
          if required_writable (st a) then Inr (st(a := (st a)\<lparr>required := Many [p]\<rparr>))
          else Inl TypeError)"

text \<open>Appending a path to a string; \<^verbatim>\<open>undefined\<close> is appended as its name.\<close>

fun path_text :: "string option \<Rightarrow> string" where
  "path_text None = ''undefined''"
| "path_text (Some s) = s"

text \<open>
  The \<^verbatim>\<open>forEach\<close> loop that builds the default message: \<open>len\<close> is \<^verbatim>\<open>arr.length\<close>,
  \<open>idx\<close> the index of the path at hand. Both comparisons with \<open>len - 1\<close> are made for a
  path of the array, so \<open>len\<close> is positive there.
\<close>

fun forEach_required :: "nat \<Rightarrow> nat \<Rightarrow> string option list \<Rightarrow> string \<Rightarrow> string" where
  "forEach_required len idx [] errorMessage = errorMessage"
| "forEach_required len idx (requiredProperty # rest) errorMessage =
     (let m1 = (if len > 1 \<and> idx = len - 1 then errorMessage @ ''or '' else errorMessage);
          m2 = m1 @ path_text requiredProperty;
          m3 = (if len > 2 \<and> idx \<noteq> len - 1 then m2 @ '', ''
                else if len \<ge> 2 then m2 @ '' ''
                else m2)
      in forEach_required len (idx + 1) rest m3)"

definition default_message :: "string option list \<Rightarrow> string" where
  "default_message paths =
     trim (forEach_required (length paths) 0 paths ''Object must contain a valid value for '')"

text \<open>
  What is pushed for a failing descriptor: its \<^verbatim>\<open>error\<close> when that is truthy, the
  default message otherwise. A \<^verbatim>\<open>required\<close> field that is no array has no
  \<^verbatim>\<open>forEach\<close> method.
\<close>

definition error_entry :: "descriptor \<Rightarrow> js_error + error_payload" where
  "error_entry d =
     (if truthy (error d) then Inr (Supplied (error d))
      else (case required d of
              Single p \<Rightarrow> Inl TypeError
            | Many paths \<Rightarrow> Inr (Generated (default_message paths))))"

text \<open>
  The \<^verbatim>\<open>some\<close> loop of the validator over the descriptor list, with the result under
  construction and the store. An exception leaves the loop with the store as it is
  then.
\<close>

fun some_descriptor ::
  "proto \<Rightarrow> jsval \<Rightarrow> bool \<Rightarrow> addr list \<Rightarrow> validation_result \<Rightarrow> store
     \<Rightarrow> (js_error + validation_result) \<times> store" where
  "some_descriptor pr object lazy [] result st = (Inr result, st)"
| "some_descriptor pr object lazy (a # rest) result st =
     (case normalize_required st a of
        Inl e \<Rightarrow> (Inl e, st)
      | Inr st1 \<Rightarrow>
          (let propertyDescriptor = st1 a
           in case doesObjectHaveAny pr object propertyDescriptor of
                Inl e \<Rightarrow> (Inl e, st1)
              | Inr h \<Rightarrow>
                  if \<not> truthy h then
                    (case error_entry propertyDescriptor of
                       Inl e \<Rightarrow> (Inl e, st1)
                     | Inr entry \<Rightarrow>
                         (let result1 = \<lparr>valid = False, errors = errors result @ [entry]\<rparr>
                          in if lazy then (Inr result1, st1)
                             else some_descriptor pr object lazy rest result1 st1))
                  else some_descriptor pr object lazy rest result st1))"

definition validate ::
  "proto \<Rightarrow> jsval \<Rightarrow> addr list \<Rightarrow> bool \<Rightarrow> store \<Rightarrow> (js_error + validation_result) \<times> store" where
  "validate pr object propertyDescriptors lazy st =
     some_descriptor pr object lazy propertyDescriptors \<lparr>valid = True, errors = []\<rparr> st"

section \<open>The example of the documentation\<close>

text \<open>
  The store that holds the descriptors of a list at the addresses 0, 1, 2 and so on, and
  the empty object at every other address.
\<close>

definition store_of :: "descriptor list \<Rightarrow> store" where
  "store_of ds a =
     (if a < length ds then ds ! a
      else \<lparr>required = Single None, invalidValues = None, error = Undefined, required_writable = True\<rparr>)"

text \<open>The object and the descriptors of the usage example.\<close>

definition toValidate :: jsval where
  "toValidate =
     Obj 10 [(''name'', Str ''John''), (''age'', Num (Val 26)),
             (''spouse'', Obj 11 [(''name'', Str ''Jane''), (''age'', Num NaN)])]"

definition requiredProperties :: "descriptor list" where
  "requiredProperties =
     [\<lparr>required = Single (Some ''name''), invalidValues = None, error = Undefined, required_writable = True\<rparr>,
      \<lparr>required = Single (Some ''age''), invalidValues = Some [Num NaN], error = Undefined, required_writable = True\<rparr>,
      \<lparr>required = Single (Some ''spouse.name''), invalidValues = Some [Str []],
        error = Obj 12 [(''message'', Str ''spouse is required and must contain a name'')],
        required_writable = True\<rparr>,
      \<lparr>required = Single (Some ''spouse.age''), invalidValues = Some [Num NaN],
        error = Obj 13 [(''message'', Str ''spouse is required and must contain an age'')],
        required_writable = True\<rparr>,
      \<lparr>required = Many [Some ''notThere'', Some ''alsoNotThere''], invalidValues = None,
        error = Undefined, required_writable = True\<rparr>]"

section \<open>Notions used to state the properties\<close>

text \<open>
  The descriptor as the normalisation leaves it when the assignment succeeds, and whether
  it succeeds: there is no assignment when the field is an array already.
\<close>

definition wrap_required :: "descriptor \<Rightarrow> descriptor" where
  "wrap_required d =
     (case required d of
        Many paths \<Rightarrow> d
      | Single p \<Rightarrow> d\<lparr>required := Many [p]\<rparr>)"

definition required_assignable :: "descriptor \<Rightarrow> bool" where
  "required_assignable d =
     (case required d of
        Many paths \<Rightarrow> True
      | Single p \<Rightarrow> required_writable d)"

text \<open>
  A descriptor passes when its normalisation succeeds and its evaluation returns a truthy
  value, and fails when the evaluation returns a falsy one; when something throws it does
  neither, and the loop of the validator ends there, as it does in a lazy run at a
  descriptor that fails.
\<close>

definition descriptor_passes :: "proto \<Rightarrow> jsval \<Rightarrow> descriptor \<Rightarrow> bool" where
  "descriptor_passes pr object d =
     (required_assignable d \<and>
      (case doesObjectHaveAny pr object (wrap_required d) of
         Inl e \<Rightarrow> False
       | Inr h \<Rightarrow> truthy h))"

definition descriptor_fails :: "proto \<Rightarrow> jsval \<Rightarrow> descriptor \<Rightarrow> bool" where
  "descriptor_fails pr object d =
     (required_assignable d \<and>
      (case doesObjectHaveAny pr object (wrap_required d) of
         Inl e \<Rightarrow> False
       | Inr h \<Rightarrow> \<not> truthy h))"

definition descriptor_stops :: "proto \<Rightarrow> jsval \<Rightarrow> bool \<Rightarrow> descriptor \<Rightarrow> bool" where
  "descriptor_stops pr object lazy d =
     (if descriptor_passes pr object d then False
      else if descriptor_fails pr object d then lazy
      else True)"

text \<open>
  The number of descriptors that a run goes through: those up to and including the first
  one at which the loop ends, all of them when there is none.
\<close>

definition visited :: "proto \<Rightarrow> jsval \<Rightarrow> bool \<Rightarrow> store \<Rightarrow> addr list \<Rightarrow> nat" where
  "visited pr object lazy st as =
     min (length as)
       (Suc (length (takeWhile (\<lambda>a. \<not> descriptor_stops pr object lazy (st a)) as)))"



text \<open>No property read throws: the validated value has no throwing accessor or trap.\<close>

definition reads_return :: "proto \<Rightarrow> bool" where
  "reads_return pr = (\<forall>v k. \<exists>w. pr v k = Inr w)"

text \<open>
  The value that a path resolves to, as the specification has it: start at the root and
  index the value at hand by the next segment, except that a value that is undefined or
  null is missing and stays as the result.
\<close>

definition resolve_step :: "proto \<Rightarrow> jsval \<Rightarrow> string \<Rightarrow> jsval" where
  "resolve_step pr v segment =
     (if v = Undefined \<or> v = Null then v
      else (case get_prop pr v segment of Inl e \<Rightarrow> Undefined | Inr w \<Rightarrow> w))"

definition resolve :: "proto \<Rightarrow> jsval \<Rightarrow> string list \<Rightarrow> jsval" where
  "resolve pr start segments = foldl (resolve_step pr) start segments"

text \<open>
  Membership in the set of invalid values as the specification has it: an explicit test
  for not-a-number, and strict equality for every other value.
\<close>

definition is_member :: "jsval list \<Rightarrow> jsval \<Rightarrow> bool" where
  "is_member xs v =
     list_ex (\<lambda>x. if v = Num NaN then x = Num NaN else strict_equals x v) xs"

text \<open>
  A candidate path is valid when it resolves to a value that is found, that is, neither
  undefined nor null, and that is not among the invalid values.
\<close>

definition candidate_valid :: "proto \<Rightarrow> jsval \<Rightarrow> jsval list option \<Rightarrow> string \<Rightarrow> bool" where
  "candidate_valid pr object invalidVals path =
     (let v = resolve pr object (split_dot path)
      in v \<noteq> Undefined \<and> v \<noteq> Null \<and>
         (case invalidVals of None \<Rightarrow> True | Some xs \<Rightarrow> \<not> is_member xs v))"

text \<open>
  The join rule as the specification words it: one path is written as it is, two paths
  with \<^verbatim>\<open>or\<close> between them, three or more separated by commas with \<^verbatim>\<open>or\<close> before
  the last one.
\<close>

fun oxford_join :: "string list \<Rightarrow> string" where
  "oxford_join [] = []"
| "oxford_join [x] = x"
| "oxford_join [x, y] = x @ '' or '' @ y"
| "oxford_join paths = concat (map (\<lambda>p. p @ '', '') (butlast paths)) @ ''or '' @ last paths"

text \<open>The object of the test suite.\<close>

definition obj :: jsval where
  "obj =
     Obj 20 [(''a'', Obj 21 [(''b'', Obj 22 [(''c'', Str ''Hello''), (''d'', Str ''World'')]),
                            (''f'', Bool False), (''g'', Str []), (''h'', Null)])]"

text \<open>An environment in which reading \<^verbatim>\<open>secret\<close> throws, as an accessor may.\<close>

definition throwing_proto :: proto where
  "throwing_proto v k = (if k = ''secret'' then Inl (Thrown (Str ''denied'')) else Inr Undefined)"

section \<open>Auxiliary facts\<close>

lemmas validator_defs =
  validate_def doesObjectHaveAny_def doesObjectHaveProperty_def normalize_required_def
  array_includes_def error_entry_def default_message_def trim_def is_white_space_def
  store_of_def

lemmas example_defs =
  validator_defs no_proto_def obj_def toValidate_def requiredProperties_def
  wrap_required_def required_assignable_def descriptor_passes_def descriptor_fails_def Let_def

subsection \<open>Path resolution and evaluation return\<close>

lemma get_prop_returns:
  "reads_return pr \<Longrightarrow> v \<noteq> Undefined \<Longrightarrow> v \<noteq> Null \<Longrightarrow> \<exists>w. get_prop pr v k = Inr w"
  by (cases v) (auto simp: reads_return_def split: option.splits)

lemma every_property_returns:
  assumes "reads_return pr"
  shows "curVal \<noteq> Undefined \<Longrightarrow> curVal \<noteq> Null \<Longrightarrow>
   \<exists>v c. every_property pr curVal segs c0 = Inr (v, c) \<and> (c0 \<longrightarrow> c = (v \<noteq> Undefined \<and> v \<noteq> Null))"
proof (induction segs arbitrary: curVal c0)
  case Nil
  then show ?case by simp
next
  case (Cons s segs)
  from get_prop_returns [OF assms Cons.prems] obtain w where w: "get_prop pr curVal s = Inr w"
    by blast
  show ?case
  proof (cases "w \<noteq> Undefined \<and> w \<noteq> Null")
    case True
    with Cons.IH [of w True] w show ?thesis by auto
  next
    case False
    with w show ?thesis by auto
  qed
qed




text \<open>The loop of the code computes the value that the path resolves to.\<close>

lemma resolve_missing:
  "v = Undefined \<or> v = Null \<Longrightarrow> foldl (resolve_step pr) v segs = v"
  by (induction segs) (auto simp: resolve_step_def)

lemma every_property_resolve:
  "every_property pr curVal segs c0 = Inr (v, c) \<Longrightarrow> curVal \<noteq> Undefined \<Longrightarrow> curVal \<noteq> Null \<Longrightarrow>
   v = resolve pr curVal segs"
proof (induction segs arbitrary: curVal c0)
  case Nil
  then show ?case by (simp add: resolve_def)
next
  case (Cons s segs)
  from Cons.prems obtain w where w: "get_prop pr curVal s = Inr w"
    by (auto split: sum.splits)
  have step: "resolve_step pr curVal s = w"
    using w Cons.prems by (simp add: resolve_step_def)
  show ?case
  proof (cases "w \<noteq> Undefined \<and> w \<noteq> Null")
    case True
    with Cons.prems w have "every_property pr w segs True = Inr (v, c)" by simp
    with Cons.IH True have "v = resolve pr w segs" by blast
    with step show ?thesis by (simp add: resolve_def)
  next
    case False
    with Cons.prems w have "v = w" by auto
    with False step show ?thesis by (auto simp: resolve_def resolve_missing)
  qed
qed





lemma wrap_required_Many: "\<exists>paths. required (wrap_required d) = Many paths"
  by (cases "required d") (simp_all add: wrap_required_def)

lemma wrap_required_idem [simp]: "wrap_required (wrap_required d) = wrap_required d"
  by (cases "required d") (simp_all add: wrap_required_def)

lemma required_assignable_wrap [simp]: "required_assignable (wrap_required d)"
  by (cases "required d") (simp_all add: wrap_required_def required_assignable_def)


lemma normalize_required_eq:
  "normalize_required st a =
     (if required_assignable (st a) then Inr (st(a := wrap_required (st a))) else Inl TypeError)"
  by (cases "required (st a)")
     (simp_all add: normalize_required_def required_assignable_def wrap_required_def)


lemma error_entry_returns: "\<exists>entry. error_entry (wrap_required d) = Inr entry"
  using wrap_required_Many [of d] by (auto simp: error_entry_def)


subsection \<open>The result of the loop does not depend on the normalisation done so far\<close>

lemma fst_some_descriptor_cong:
  "\<forall>x. wrap_required (st x) = wrap_required (st' x)
       \<and> required_assignable (st x) = required_assignable (st' x) \<Longrightarrow>
   fst (some_descriptor pr object lazy as res st) = fst (some_descriptor pr object lazy as res st')"
proof (induction as arbitrary: res st st')
  case Nil
  then show ?case by simp
next
  case (Cons a as)
  let ?st1 = "st(a := wrap_required (st a))"
  let ?st1' = "st'(a := wrap_required (st' a))"
  from Cons.prems have same: "wrap_required (st' a) = wrap_required (st a)"
    and asg: "required_assignable (st' a) = required_assignable (st a)" by simp_all
  from Cons.prems have "\<forall>x. wrap_required (?st1 x) = wrap_required (?st1' x)
       \<and> required_assignable (?st1 x) = required_assignable (?st1' x)" by simp
  then have ih: "\<And>res'. fst (some_descriptor pr object lazy as res' ?st1)
                        = fst (some_descriptor pr object lazy as res' ?st1')"
    by (rule Cons.IH)
  show ?case
    using ih same asg
    by (cases lazy)
       (simp_all add: normalize_required_eq Let_def fun_upd_same del: fun_upd_apply
          split: sum.splits)
qed

lemma fst_some_descriptor_wrap:
  "required_assignable (st a) \<Longrightarrow>
   fst (some_descriptor pr object lazy as res (st(a := wrap_required (st a))))
   = fst (some_descriptor pr object lazy as res st)"
  by (rule fst_some_descriptor_cong) simp

lemma fst_some_descriptor_Cons:
  "fst (some_descriptor pr object lazy (a # as) res st) =
     (if \<not> required_assignable (st a) then Inl TypeError
      else case doesObjectHaveAny pr object (wrap_required (st a)) of
        Inl e \<Rightarrow> Inl e
      | Inr h \<Rightarrow>
          if \<not> truthy h then
            (case error_entry (wrap_required (st a)) of
               Inl e \<Rightarrow> Inl e
             | Inr entry \<Rightarrow>
                 if lazy then Inr \<lparr>valid = False, errors = errors res @ [entry]\<rparr>
                 else fst (some_descriptor pr object lazy as
                             \<lparr>valid = False, errors = errors res @ [entry]\<rparr> st))
          else fst (some_descriptor pr object lazy as res st))"
  by (cases lazy)
     (simp_all add: normalize_required_eq Let_def fun_upd_same fst_some_descriptor_wrap
        del: fun_upd_apply split: sum.splits)

text \<open>One step of the loop, by what the descriptor at hand does.\<close>

lemma step_passes:
  "descriptor_passes pr object (st a) \<Longrightarrow>
   fst (some_descriptor pr object lazy (a # as) res st)
   = fst (some_descriptor pr object lazy as res st)"
  by (auto simp: descriptor_passes_def fst_some_descriptor_Cons
      simp del: some_descriptor.simps split: sum.splits)

lemma step_fails:
  "descriptor_fails pr object (st a) \<Longrightarrow>
   \<exists>entry. error_entry (wrap_required (st a)) = Inr entry
     \<and> fst (some_descriptor pr object lazy (a # as) res st)
       = (if lazy then Inr \<lparr>valid = False, errors = errors res @ [entry]\<rparr>
          else fst (some_descriptor pr object lazy as
                      \<lparr>valid = False, errors = errors res @ [entry]\<rparr> st))"
  using error_entry_returns [of "st a"]
  by (auto simp: descriptor_fails_def fst_some_descriptor_Cons
      simp del: some_descriptor.simps split: sum.splits)

lemma step_throws:
  "\<not> descriptor_passes pr object (st a) \<Longrightarrow> \<not> descriptor_fails pr object (st a) \<Longrightarrow>
   \<exists>e. fst (some_descriptor pr object lazy (a # as) res st) = Inl e"
  using error_entry_returns [of "st a"]
  by (auto simp: descriptor_passes_def descriptor_fails_def fst_some_descriptor_Cons
      simp del: some_descriptor.simps split: sum.splits)

lemma step_returns:
  "fst (some_descriptor pr object lazy (a # as) res st) = Inr r \<Longrightarrow>
   descriptor_passes pr object (st a) \<or> descriptor_fails pr object (st a)"
  using step_throws [of pr object st a lazy as res] by auto

lemma fails_not_passes:
  "descriptor_fails pr object d \<Longrightarrow> \<not> descriptor_passes pr object d"
  by (auto simp: descriptor_fails_def descriptor_passes_def split: sum.splits)

subsection \<open>Lazy and complete runs\<close>

lemma nonlazy_shape:
  "fst (some_descriptor pr object False as res st) = Inr r \<Longrightarrow>
   \<exists>es. errors r = errors res @ es \<and> valid r = (valid res \<and> es = [])"
proof (induction as arbitrary: res)
  case Nil
  then show ?case by simp
next
  case (Cons a as)
  from step_returns [OF Cons.prems] show ?case
  proof
    assume "descriptor_passes pr object (st a)"
    from Cons.prems [unfolded step_passes [of pr object st a, OF this]] show ?thesis by (rule Cons.IH)
  next
    assume "descriptor_fails pr object (st a)"
    from step_fails [of pr object st a False as res, OF this] Cons.prems obtain entry where
      rec: "fst (some_descriptor pr object False as
                  \<lparr>valid = False, errors = errors res @ [entry]\<rparr> st) = Inr r"
      by auto
    from Cons.IH [OF rec] show ?thesis by auto
  qed
qed

lemma lazy_shape:
  "fst (some_descriptor pr object True as res st) = Inr r \<Longrightarrow>
   (case find (\<lambda>a. descriptor_fails pr object (st a)) as of
      None \<Rightarrow> r = res \<and> list_all (\<lambda>a. descriptor_passes pr object (st a)) as
    | Some a \<Rightarrow> \<exists>entry. error_entry (wrap_required (st a)) = Inr entry
                 \<and> r = \<lparr>valid = False, errors = errors res @ [entry]\<rparr>)"
proof (induction as)
  case Nil
  then show ?case by simp
next
  case (Cons a as)
  from step_returns [OF Cons.prems] show ?case
  proof
    assume p: "descriptor_passes pr object (st a)"
    then have f: "\<not> descriptor_fails pr object (st a)" using fails_not_passes by blast
    from Cons.prems [unfolded step_passes [of pr object st a, OF p]]
    have "fst (some_descriptor pr object True as res st) = Inr r" .
    from Cons.IH [OF this] p f show ?thesis
      by (simp split: option.splits)
  next
    assume f: "descriptor_fails pr object (st a)"
    from step_fails [of pr object st a True as res, OF this] Cons.prems obtain entry where
      "error_entry (wrap_required (st a)) = Inr entry"
      "r = \<lparr>valid = False, errors = errors res @ [entry]\<rparr>"
      by auto
    with f show ?thesis by simp
  qed
qed

lemma lazy_run:
  assumes "fst (some_descriptor pr object True as \<lparr>valid = True, errors = []\<rparr> st) = Inr r"
  shows "length (errors r) \<le> 1"
    and "(errors r = []) = list_all (\<lambda>a. descriptor_passes pr object (st a)) as"
    and "valid r = (errors r = [])"
    and "find (\<lambda>a. descriptor_fails pr object (st a)) as = Some a \<Longrightarrow>
         map Inr (errors r) = [error_entry (wrap_required (st a))]"
proof -
  note shape = lazy_shape [OF assms]
  show "length (errors r) \<le> 1"
    using shape by (auto split: option.splits)
  show "valid r = (errors r = [])"
    using shape by (auto split: option.splits)
  show "find (\<lambda>a. descriptor_fails pr object (st a)) as = Some a \<Longrightarrow>
         map Inr (errors r) = [error_entry (wrap_required (st a))]"
    using shape by auto
  show "(errors r = []) = list_all (\<lambda>a. descriptor_passes pr object (st a)) as"
  proof (cases "find (\<lambda>a. descriptor_fails pr object (st a)) as")
    case None
    with shape show ?thesis by simp
  next
    case (Some b)
    then have "b \<in> set as" and "descriptor_fails pr object (st b)"
      by (auto simp: find_Some_iff)
    then have "\<not> list_all (\<lambda>a. descriptor_passes pr object (st a)) as"
      using fails_not_passes by (auto simp: list_all_iff)
    moreover from shape Some have "errors r \<noteq> []" by auto
    ultimately show ?thesis by simp
  qed
qed

lemma lazy_of_nonlazy:
  "fst (some_descriptor pr object False as res st) = Inr r2 \<Longrightarrow>
   \<exists>r1. fst (some_descriptor pr object True as res st) = Inr r1
        \<and> (r1 = res \<and> r2 = res
           \<or> valid r1 = valid r2 \<and> errors r1 = take (Suc (length (errors res))) (errors r2))"
proof (induction as)
  case Nil
  then show ?case by simp
next
  case (Cons a as)
  from step_returns [OF Cons.prems] show ?case
  proof
    assume p: "descriptor_passes pr object (st a)"
    from Cons.prems [unfolded step_passes [of pr object st a, OF p]]
    have "fst (some_descriptor pr object False as res st) = Inr r2" .
    from Cons.IH [OF this] show ?thesis
      by (simp only: step_passes [of pr object st a, OF p])
  next
    assume f: "descriptor_fails pr object (st a)"
    from step_fails [of pr object st a False as res, OF f] step_fails [of pr object st a True as res, OF f] Cons.prems
    obtain entry where
      lz: "fst (some_descriptor pr object True (a # as) res st)
           = Inr \<lparr>valid = False, errors = errors res @ [entry]\<rparr>" and
      rec: "fst (some_descriptor pr object False as
                  \<lparr>valid = False, errors = errors res @ [entry]\<rparr> st) = Inr r2"
      by auto
    from nonlazy_shape [OF rec] obtain es where
      "errors r2 = (errors res @ [entry]) @ es" "valid r2 = False"
      by auto
    with lz show ?thesis by simp
  qed
qed

subsection \<open>The store after a run\<close>

lemma descriptor_stops_wrap:
  "required_assignable d \<Longrightarrow>
   descriptor_stops pr object lazy (wrap_required d) = descriptor_stops pr object lazy d"
  by (simp add: descriptor_stops_def descriptor_passes_def descriptor_fails_def)

lemma visited_wrap:
  assumes "required_assignable (st a)"
  shows "visited pr object lazy (st(a := wrap_required (st a))) as = visited pr object lazy st as"
proof -
  have "descriptor_stops pr object lazy ((st(a := wrap_required (st a))) x)
        = descriptor_stops pr object lazy (st x)" for x
    using assms by (simp add: descriptor_stops_wrap)
  then show ?thesis by (simp only: visited_def)
qed

lemma visited_Cons_stop:
  "descriptor_stops pr object lazy (st a) \<Longrightarrow> visited pr object lazy st (a # as) = 1"
  by (simp add: visited_def)

lemma visited_Cons_go:
  "\<not> descriptor_stops pr object lazy (st a) \<Longrightarrow>
   visited pr object lazy st (a # as) = Suc (visited pr object lazy st as)"
  by (simp add: visited_def)

lemma snd_some_descriptor:
  "snd (some_descriptor pr object lazy as res st) x =
     (if x \<in> set (take (visited pr object lazy st as) as) \<and> required_assignable (st x)
      then wrap_required (st x) else st x)"
proof (induction as arbitrary: res st)
  case Nil
  show ?case by simp
next
  case (Cons a as)
  let ?st1 = "st(a := wrap_required (st a))"
  show ?case
  proof (cases "required_assignable (st a)")
    case False
    then have "descriptor_stops pr object lazy (st a)"
      by (simp add: descriptor_stops_def descriptor_passes_def descriptor_fails_def)
    then have v: "visited pr object lazy st (a # as) = 1" by (rule visited_Cons_stop)
    from False have run: "snd (some_descriptor pr object lazy (a # as) res st) x = st x"
      by (simp add: normalize_required_eq)
    show ?thesis unfolding run v using False by auto
  next
    case True
    have ih: "snd (some_descriptor pr object lazy as res' ?st1) x =
        (if x \<in> set (take (visited pr object lazy st as) as) \<and> required_assignable (?st1 x)
         then wrap_required (?st1 x) else ?st1 x)" for res'
      using Cons.IH [of res' ?st1] by (simp only: visited_wrap [of st a, OF True])
    have upd: "(if x \<in> set (take n as) \<and> required_assignable (?st1 x)
                then wrap_required (?st1 x) else ?st1 x)
             = (if (x = a \<or> x \<in> set (take n as)) \<and> required_assignable (st x)
                then wrap_required (st x) else st x)" for n
      using True by auto
    have stop: "descriptor_stops pr object lazy (st a) \<Longrightarrow>
                snd (some_descriptor pr object lazy (a # as) res st) = ?st1 \<Longrightarrow> ?thesis"
      using True by (simp add: visited_Cons_stop)
    have go: "\<not> descriptor_stops pr object lazy (st a) \<Longrightarrow>
              snd (some_descriptor pr object lazy (a # as) res st)
              = snd (some_descriptor pr object lazy as res' ?st1) \<Longrightarrow> ?thesis" for res'
      using ih [of res'] unfolding upd by (simp add: visited_Cons_go)
    show ?thesis
    proof (cases "doesObjectHaveAny pr object (wrap_required (st a))")
      case (Inl e)
      with True have "descriptor_stops pr object lazy (st a)"
        by (simp add: descriptor_stops_def descriptor_passes_def descriptor_fails_def)
      moreover from Inl True have "snd (some_descriptor pr object lazy (a # as) res st) = ?st1"
        by (simp add: normalize_required_eq Let_def fun_upd_same del: fun_upd_apply)
      ultimately show ?thesis by (rule stop)
    next
      case (Inr h)
      from error_entry_returns obtain entry where
        e: "error_entry (wrap_required (st a)) = Inr entry" by blast
      show ?thesis
      proof (cases "truthy h")
        case t: True
        with Inr True have "\<not> descriptor_stops pr object lazy (st a)"
          by (simp add: descriptor_stops_def descriptor_passes_def)
        moreover from Inr True t
        have "snd (some_descriptor pr object lazy (a # as) res st)
              = snd (some_descriptor pr object lazy as res ?st1)"
          by (simp add: normalize_required_eq Let_def fun_upd_same del: fun_upd_apply)
        ultimately show ?thesis by (rule go)
      next
        case f: False
        with Inr True have s: "descriptor_stops pr object lazy (st a) = lazy"
          by (simp add: descriptor_stops_def descriptor_passes_def descriptor_fails_def)
        show ?thesis
        proof (cases lazy)
          case lz: True
          with Inr True f e have "snd (some_descriptor pr object lazy (a # as) res st) = ?st1"
            by (simp add: normalize_required_eq Let_def fun_upd_same del: fun_upd_apply)
          with s lz show ?thesis by (intro stop) simp_all
        next
          case nl: False
          with Inr True f e
          have "snd (some_descriptor pr object lazy (a # as) res st)
                = snd (some_descriptor pr object lazy as
                        \<lparr>valid = False, errors = errors res @ [entry]\<rparr> ?st1)"
            by (simp add: normalize_required_eq Let_def fun_upd_same del: fun_upd_apply)
          with s nl show ?thesis by (intro go) simp_all
        qed
      qed
    qed
  qed
qed

lemma store_after_run:
  "wrap_required (snd (some_descriptor pr object lazy as res st) x) = wrap_required (st x)
   \<and> required_assignable (snd (some_descriptor pr object lazy as res st) x)
       = required_assignable (st x)"
  by (simp add: snd_some_descriptor)

text \<open>How far a run that returns has gone.\<close>

lemma returns_not_throws:
  "fst (some_descriptor pr object lazy as res st) = Inr r \<Longrightarrow>
   list_all (\<lambda>a. descriptor_passes pr object (st a) \<or> descriptor_fails pr object (st a))
     (take (visited pr object lazy st as) as)"
proof (induction as arbitrary: res)
  case Nil
  show ?case by simp
next
  case (Cons a as)
  note pf = step_returns [OF Cons.prems]
  show ?case
  proof (cases "descriptor_stops pr object lazy (st a)")
    case True
    with pf show ?thesis by (simp add: visited_Cons_stop)
  next
    case False
    have "\<exists>res'. fst (some_descriptor pr object lazy as res' st) = Inr r"
    proof (cases "descriptor_passes pr object (st a)")
      case True
      with Cons.prems show ?thesis by (auto simp only: step_passes [of pr object st a])
    next
      case np: False
      with pf have f: "descriptor_fails pr object (st a)" by simp
      with False np have "\<not> lazy" by (simp add: descriptor_stops_def)
      with step_fails [of pr object st a lazy as res, OF f] Cons.prems show ?thesis by auto
    qed
    then obtain res' where "fst (some_descriptor pr object lazy as res' st) = Inr r" ..
    from Cons.IH [OF this] pf False show ?thesis by (simp add: visited_Cons_go)
  qed
qed

lemma visited_nonlazy:
  assumes "fst (some_descriptor pr object False as res st) = Inr r"
  shows "visited pr object False st as = length as"
  using assms
proof (induction as arbitrary: res)
  case Nil
  show ?case by (simp add: visited_def)
next
  case (Cons a as)
  note pf = step_returns [OF Cons.prems]
  then have ns: "\<not> descriptor_stops pr object False (st a)"
    by (auto simp: descriptor_stops_def)
  have "\<exists>res'. fst (some_descriptor pr object False as res' st) = Inr r"
  proof (cases "descriptor_passes pr object (st a)")
    case True
    with Cons.prems show ?thesis by (auto simp only: step_passes [of pr object st a])
  next
    case False
    with pf have f: "descriptor_fails pr object (st a)" by simp
    with step_fails [of pr object st a False as res, OF f] Cons.prems show ?thesis by auto
  qed
  then obtain res' where "fst (some_descriptor pr object False as res' st) = Inr r" ..
  from Cons.IH [OF this] ns show ?case by (simp add: visited_Cons_go)
qed

lemma takeWhile_passes_stops:
  "list_all (\<lambda>a. descriptor_passes pr object (st a) \<or> descriptor_fails pr object (st a))
     (take (visited pr object True st as) as) \<Longrightarrow>
   takeWhile (\<lambda>a. \<not> descriptor_stops pr object True (st a)) as
   = takeWhile (\<lambda>a. descriptor_passes pr object (st a)) as"
proof (induction as)
  case Nil
  show ?case by simp
next
  case (Cons a as)
  show ?case
  proof (cases "descriptor_stops pr object True (st a)")
    case True
    with Cons.prems have "descriptor_passes pr object (st a) \<or> descriptor_fails pr object (st a)"
      by (simp add: visited_Cons_stop)
    with True show ?thesis by (auto simp: descriptor_stops_def split: if_splits)
  next
    case False
    then have p: "descriptor_passes pr object (st a)"
      by (auto simp: descriptor_stops_def split: if_splits)
    from Cons.prems False have "list_all (\<lambda>a. descriptor_passes pr object (st a) \<or> descriptor_fails pr object (st a))
     (take (visited pr object True st as) as)"
      by (simp add: visited_Cons_go)
    from Cons.IH [OF this] False p show ?thesis by simp
  qed
qed

lemma visited_lazy:
  assumes "fst (some_descriptor pr object True as \<lparr>valid = True, errors = []\<rparr> st) = Inr r"
  shows "visited pr object True st as =
           (if valid r then length as
            else Suc (length (takeWhile (\<lambda>a. descriptor_passes pr object (st a)) as)))"
proof -
  let ?P = "\<lambda>a. descriptor_passes pr object (st a)"
  from takeWhile_passes_stops [OF returns_not_throws [OF assms]]
  have v: "visited pr object True st as = min (length as) (Suc (length (takeWhile ?P as)))"
    by (simp add: visited_def)
  show ?thesis
  proof (cases "valid r")
    case True
    with lazy_run(2,3) [OF assms] have "list_all ?P as" by simp
    then have "takeWhile ?P as = as" by (simp add: list_all_iff)
    with v True show ?thesis by simp
  next
    case False
    with lazy_run(2,3) [OF assms] have "\<not> list_all ?P as" by simp
    then have "takeWhile ?P as \<noteq> as"
      by (simp add: list_all_iff takeWhile_eq_all_conv)
    then have "length (takeWhile ?P as) \<noteq> length as"
      by (metis takeWhile_eq_take take_all order_refl)
    with length_takeWhile_le [of ?P as] have "length (takeWhile ?P as) < length as"
      by simp
    with v False show ?thesis by simp
  qed
qed

subsection \<open>Exceptions\<close>

lemma absent_required_raises:
  "required d = Single None \<Longrightarrow> doesObjectHaveAny pr object (wrap_required d) = Inl TypeError"
  by (simp add: doesObjectHaveAny_def wrap_required_def doesObjectHaveProperty_def)

lemma absent_required_throws:
  "required d = Single None \<Longrightarrow>
   \<not> descriptor_passes pr object d \<and> \<not> descriptor_fails pr object d"
  by (simp add: descriptor_passes_def descriptor_fails_def absent_required_raises)

lemma raises_after_prefix:
  assumes "required (st a) = Single None"
  shows "lazy \<longrightarrow> list_all (\<lambda>x. \<not> descriptor_fails pr object (st x)) pre \<Longrightarrow>
         \<exists>e. fst (some_descriptor pr object lazy (pre @ a # post) res st) = Inl e"
proof (induction pre arbitrary: res)
  case Nil
  from absent_required_throws [OF assms] show ?case
    by (simp add: step_throws del: some_descriptor.simps)
next
  case (Cons b pre)
  have ih: "\<exists>e. fst (some_descriptor pr object lazy (pre @ a # post) res' st) = Inl e" for res'
    using Cons.prems by (intro Cons.IH) simp
  consider "descriptor_passes pr object (st b)" | "descriptor_fails pr object (st b)"
    | "\<not> descriptor_passes pr object (st b)" "\<not> descriptor_fails pr object (st b)"
    by blast
  then show ?case
  proof cases
    case 1
    with ih [of res] show ?thesis
      by (simp add: step_passes [of pr object st b] del: some_descriptor.simps)
  next
    case 2
    with Cons.prems have "\<not> lazy" by auto
    with step_fails [of pr object st b lazy "pre @ a # post" res, OF 2] ih show ?thesis
      by (auto simp del: some_descriptor.simps)
  next
    case 3
    then show ?thesis
      by (simp add: step_throws del: some_descriptor.simps)
  qed
qed

lemma type_error_after_passing:
  assumes "required (st a) = Single None"
  shows "list_all (\<lambda>x. descriptor_passes pr object (st x)) pre \<Longrightarrow>
         fst (some_descriptor pr object lazy (pre @ a # post) res st) = Inl TypeError"
proof (induction pre)
  case Nil
  show ?case
    by (simp add: fst_some_descriptor_Cons absent_required_raises [OF assms]
        del: some_descriptor.simps)
next
  case (Cons b pre)
  then show ?case
    by (simp add: step_passes [of pr object st b] del: some_descriptor.simps)
qed

lemma lazy_returns_at_first_failure:
  assumes "descriptor_fails pr object (st b)"
  shows "list_all (\<lambda>x. descriptor_passes pr object (st x)) pre \<Longrightarrow>
         \<exists>entry. error_entry (wrap_required (st b)) = Inr entry
           \<and> fst (some_descriptor pr object True (pre @ b # post) res st)
               = Inr \<lparr>valid = False, errors = errors res @ [entry]\<rparr>"
proof (induction pre)
  case Nil
  from step_fails [of pr object st b True post res, OF assms]
  show ?case by (auto simp del: some_descriptor.simps)
next
  case (Cons c pre)
  then show ?case
    by (simp add: step_passes [of pr object st c] del: some_descriptor.simps)
qed

lemma visited_lazy_failure:
  assumes "descriptor_fails pr object (st b)"
    and "list_all (\<lambda>x. descriptor_passes pr object (st x)) pre"
  shows "visited pr object True st (pre @ b # post) = Suc (length pre)"
proof -
  have stop: "descriptor_stops pr object True (st b)"
    using assms(1) fails_not_passes [OF assms(1)] by (simp add: descriptor_stops_def)
  have "\<forall>x\<in>set pre. \<not> descriptor_stops pr object True (st x)"
    using assms(2) by (auto simp: list_all_iff descriptor_stops_def)
  then have "takeWhile (\<lambda>a. \<not> descriptor_stops pr object True (st a)) (pre @ b # post) = pre"
    using stop by (simp add: takeWhile_append2)
  then show ?thesis by (simp add: visited_def)
qed

subsection \<open>Membership and candidates\<close>

lemma same_value_zero_strict:
  "same_value_zero x v = (if v = Num NaN then x = Num NaN else strict_equals x v)"
proof (cases v)
  case (Num n)
  show ?thesis
  proof (cases x)
    case x: (Num m)
    show ?thesis unfolding Num x by (cases m; cases n) auto
  qed (simp_all add: Num)
qed (cases x; auto)+

lemma array_includes_is_member: "array_includes xs v = is_member xs v"
  by (simp add: array_includes_def is_member_def same_value_zero_strict)

lemma doesObjectHaveProperty_candidate:
  assumes "reads_return pr" and "object \<noteq> Undefined" and "object \<noteq> Null"
  shows "doesObjectHaveProperty pr object (Some path) iv = Inr (candidate_valid pr object iv path)"
proof -
  from every_property_returns [OF assms, of "split_dot path" True]
  obtain v c where ep: "every_property pr object (split_dot path) True = Inr (v, c)"
    and c: "c = (v \<noteq> Undefined \<and> v \<noteq> Null)" by auto
  from every_property_resolve [OF ep assms(2,3)] have "v = resolve pr object (split_dot path)" .
  with ep c show ?thesis
    by (auto simp: doesObjectHaveProperty_def candidate_valid_def array_includes_is_member
        split: option.splits)
qed

lemma some_required_exists:
  assumes "reads_return pr" and "object \<noteq> Undefined" and "object \<noteq> Null"
  shows "some_required pr object iv (map Some paths) res =
           Inr (if paths = [] then res else Bool (list_ex (candidate_valid pr object iv) paths))"
proof (induction paths arbitrary: res)
  case Nil
  show ?case by simp
next
  case (Cons p paths)
  show ?case
    by (auto simp: Cons.IH doesObjectHaveProperty_candidate [OF assms])
qed

lemma some_required_stops:
  assumes "reads_return pr" and "object \<noteq> Undefined" and "object \<noteq> Null"
    and "candidate_valid pr object iv p"
  shows "list_all (\<lambda>q. \<not> candidate_valid pr object iv q) pre \<Longrightarrow>
         some_required pr object iv (map Some pre @ Some p # rest) res = Inr (Bool True)"
  by (induction pre arbitrary: res)
     (simp_all add: doesObjectHaveProperty_candidate [OF assms(1,2,3)] assms(4))

subsection \<open>The default message\<close>

lemma forEach_required_many:
  "3 \<le> len \<Longrightarrow> idx + length paths = len \<Longrightarrow> paths \<noteq> [] \<Longrightarrow>
   forEach_required len idx paths msg =
     msg @ concat (map (\<lambda>p. path_text p @ '', '') (butlast paths))
         @ ''or '' @ path_text (last paths) @ '' ''"
proof (induction paths arbitrary: idx msg)
  case Nil
  then show ?case by simp
next
  case (Cons p paths)
  show ?case
  proof (cases "paths = []")
    case True
    with Cons.prems show ?thesis by (auto simp: Let_def)
  next
    case False
    with Cons.prems have "idx \<noteq> len - 1" and "Suc idx + length paths = len" by auto
    with Cons.IH [of "Suc idx"] Cons.prems False show ?thesis
      by (simp add: Let_def)
  qed
qed

lemma dropWhile_hd: "xs \<noteq> [] \<Longrightarrow> \<not> P (hd xs) \<Longrightarrow> dropWhile P xs = xs"
  by (cases xs) simp_all

lemma trim_keeps:
  assumes "s \<noteq> []" and "\<not> is_white_space (hd s)" and "\<not> is_white_space (last s)"
  shows "trim s = s" and "trim (s @ '' '') = s"
proof -
  have lead: "dropWhile is_white_space s = s"
    using assms(1,2) by (rule dropWhile_hd)
  have "rev s \<noteq> []" and "\<not> is_white_space (hd (rev s))"
    using assms(1,3) by (simp_all add: hd_rev)
  then have rear: "dropWhile is_white_space (rev s) = rev s"
    by (rule dropWhile_hd)
  show "trim s = s"
    by (simp add: trim_def lead rear)
  have "s @ '' '' \<noteq> []" and "\<not> is_white_space (hd (s @ '' ''))"
    using assms(1,2) by simp_all
  then have lead2: "dropWhile is_white_space (s @ '' '') = s @ '' ''"
    by (rule dropWhile_hd)
  have sp: "is_white_space CHR '' ''" by (simp add: is_white_space_def)
  show "trim (s @ '' '') = s"
    by (simp add: trim_def lead2 sp rear)
qed

lemma default_message_join:
  assumes "paths \<noteq> []" and "last paths \<noteq> []" and "\<not> is_white_space (last (last paths))"
  shows "default_message (map Some paths) =
           ''Object must contain a valid value for '' @ oxford_join paths"
proof -
  let ?pre = "''Object must contain a valid value for ''"
  have O: "\<not> is_white_space CHR ''O''" by (simp add: is_white_space_def)
  have keep: "trim (?pre @ front @ last paths) = ?pre @ front @ last paths"
    "trim ((?pre @ front @ last paths) @ '' '') = ?pre @ front @ last paths" for front
  proof -
    let ?s = "?pre @ front @ last paths"
    have "?s \<noteq> []" and "\<not> is_white_space (hd ?s)" and "\<not> is_white_space (last ?s)"
      using assms(2,3) O by simp_all
    then show "trim ?s = ?s" and "trim (?s @ '' '') = ?s"
      by (rule trim_keeps)+
  qed
  consider x where "paths = [x]" | x y where "paths = [x, y]"
    | x y z rest where "paths = x # y # z # rest"
    using assms(1) by (cases paths rule: oxford_join.cases) auto
  then show ?thesis
  proof cases
    case 1
    with keep(1) [of "[]"] show ?thesis by (simp add: default_message_def Let_def)
  next
    case 2
    with keep(2) [of "x @ '' or ''"] show ?thesis by (simp add: default_message_def Let_def)
  next
    case 3
    have len: "3 \<le> length (map Some paths)" using 3 by simp
    have ne: "map Some paths \<noteq> []" using 3 by simp
    have "forEach_required (length (map Some paths)) 0 (map Some paths) ?pre =
            ?pre @ concat (map (\<lambda>p. path_text p @ '', '') (butlast (map Some paths)))
                 @ ''or '' @ path_text (last (map Some paths)) @ '' ''"
      using len ne by (intro forEach_required_many) simp_all
    also have "\<dots> = (?pre @ (concat (map (\<lambda>p. p @ '', '') (butlast paths)) @ ''or '') @ last paths) @ '' ''"
      using assms(1) by (simp add: map_butlast [symmetric] last_map comp_def)
    finally have "default_message (map Some paths) =
        ?pre @ (concat (map (\<lambda>p. p @ '', '') (butlast paths)) @ ''or '') @ last paths"
      unfolding default_message_def length_map using keep(2) by (simp del: append_assoc)
    with 3 show ?thesis by simp
  qed
qed

section \<open>The properties\<close>

subsection \<open>C1: the usage example\<close>

text \<open>
  C1. In an environment that defines neither \<^verbatim>\<open>notThere\<close> nor \<^verbatim>\<open>alsoNotThere\<close> on
  the object, validating the object of the usage example against its five descriptors
  returns, when not lazy, \<open>valid = False\<close> with the error of the fourth descriptor
  followed by the default message for the two missing paths, and when lazy the first of
  the two only; the lazy run gives the same on the descriptors as the first run left them.
\<close>

theorem readme_scenario:
  assumes "pr toValidate ''notThere'' = Inr Undefined"
    and "pr toValidate ''alsoNotThere'' = Inr Undefined"
  shows "fst (validate pr toValidate [0, 1, 2, 3, 4] False (store_of requiredProperties)) =
           Inr \<lparr>valid = False,
                errors = [Supplied (Obj 13 [(''message'', Str ''spouse is required and must contain an age'')]),
                          Generated ''Object must contain a valid value for notThere or alsoNotThere'']\<rparr>
       \<and> fst (validate pr toValidate [0, 1, 2, 3, 4] True (store_of requiredProperties)) =
           Inr \<lparr>valid = False,
                errors = [Supplied (Obj 13 [(''message'', Str ''spouse is required and must contain an age'')])]\<rparr>
       \<and> fst (validate pr toValidate [0, 1, 2, 3, 4] True
               (snd (validate pr toValidate [0, 1, 2, 3, 4] False (store_of requiredProperties)))) =
           Inr \<lparr>valid = False,
                errors = [Supplied (Obj 13 [(''message'', Str ''spouse is required and must contain an age'')])]\<rparr>"
  using assms by (simp add: validator_defs toValidate_def requiredProperties_def Let_def)

text \<open>The environment without inherited names is such an environment.\<close>

theorem readme_scenario_witness:
  "no_proto toValidate ''notThere'' = Inr Undefined
   \<and> no_proto toValidate ''alsoNotThere'' = Inr Undefined
   \<and> fst (validate no_proto toValidate [0, 1, 2, 3, 4] False (store_of requiredProperties)) =
       Inr \<lparr>valid = False,
            errors = [Supplied (Obj 13 [(''message'', Str ''spouse is required and must contain an age'')]),
                      Generated ''Object must contain a valid value for notThere or alsoNotThere'']\<rparr>
   \<and> fst (validate no_proto toValidate [0, 1, 2, 3, 4] True (store_of requiredProperties)) =
       Inr \<lparr>valid = False,
            errors = [Supplied (Obj 13 [(''message'', Str ''spouse is required and must contain an age'')])]\<rparr>"
  using readme_scenario [of no_proto] by (simp add: no_proto_def)

subsection \<open>C2: validation returns\<close>




subsection \<open>C3: the custom error\<close>

text \<open>
  C3. The value of \<^verbatim>\<open>error\<close> that a failing descriptor supplies should be appended
  as it is, whatever value it is. The validator tests the truthiness of the field: on the
  empty object, the descriptor that requires \<^verbatim>\<open>notThere\<close> and supplies the empty
  string as \<^verbatim>\<open>error\<close> has the default message appended, not the empty string, and
  so it is for the other falsy values, the zeros, not-a-number, false and null; the
  string of the test suite, an object, a number and true are appended as they are.
\<close>

theorem falsy_error_replaced:
  "fst (validate no_proto (Obj 0 []) [0] False
         (store_of [\<lparr>required = Single (Some ''notThere''), invalidValues = None,
                     error = Str [], required_writable = True\<rparr>])) =
     Inr \<lparr>valid = False,
          errors = [Generated ''Object must contain a valid value for notThere'']\<rparr>
   \<and> map (\<lambda>e. error_entry \<lparr>required = Many [Some ''notThere''], invalidValues = None,
                                error = e, required_writable = True\<rparr>)
         [Str [], Num (Val 0), Num NegZero, Num NaN, Bool False, Null]
       = replicate 6 (Inr (Generated ''Object must contain a valid value for notThere''))
   \<and> map (\<lambda>e. error_entry \<lparr>required = Many [Some ''notThere''], invalidValues = None,
                                error = e, required_writable = True\<rparr>)
         [Str ''Missing notThere property'', Obj 7 [], Num (Val 1), Bool True]
       = map (\<lambda>e. Inr (Supplied e))
           [Str ''Missing notThere property'', Obj 7 [], Num (Val 1), Bool True]"
  by (simp add: validator_defs no_proto_def Let_def numeral_eq_Suc)

subsection \<open>C4: not-a-number among the invalid values\<close>

text \<open>
  C4. The membership test finds not-a-number exactly when not-a-number is among the
  invalid values, and a path that resolves to not-a-number is then judged invalid. For
  every other value the membership test is strict equality with some invalid value: for
  undefined, null, a boolean or a string this is to be one of the invalid values, a zero
  is found when either zero is there, and an object when the same object is there. The
  descriptor that requires \<^verbatim>\<open>age\<close> with not-a-number as its only invalid value, and
  that is not frozen, fails exactly when the value of \<^verbatim>\<open>age\<close> is not-a-number,
  undefined or null.
\<close>

theorem nan_is_invalid:
  "array_includes xs (Num NaN) = (Num NaN \<in> set xs)
   \<and> (Num NaN \<in> set xs \<and> every_property pr object (split_dot path) True = Inr (Num NaN, found)
        \<longrightarrow> doesObjectHaveProperty pr object (Some path) (Some xs) = Inr False)
   \<and> (v \<noteq> Num NaN \<longrightarrow> array_includes xs v = list_ex (\<lambda>x. strict_equals x v) xs)
   \<and> (v = Undefined \<or> v = Null \<or> v = Bool b \<or> v = Str s
        \<longrightarrow> array_includes xs v = (v \<in> set xs))
   \<and> array_includes xs (Num NegZero) = (Num NegZero \<in> set xs \<or> Num (Val 0) \<in> set xs)
   \<and> array_includes xs (Num (Val 0)) = (Num NegZero \<in> set xs \<or> Num (Val 0) \<in> set xs)
   \<and> array_includes xs (Obj a ps) = (\<exists>qs. Obj a qs \<in> set xs)
   \<and> (get_prop pr object ''age'' = Inr w
        \<and> (required d = Single (Some ''age'') \<or> required d = Many [Some ''age''])
        \<and> required_writable d
        \<and> invalidValues d = Some [Num NaN]
        \<longrightarrow> descriptor_fails pr object d = (w = Num NaN \<or> w = Undefined \<or> w = Null))"
proof -
  have nan: "strict_equals x (Num NaN) = False" for x
    by (cases x) (auto split: jsval.splits elim: number_equals.elims)
  have 1: "array_includes xs (Num NaN) = (Num NaN \<in> set xs)"
    by (auto simp: array_includes_is_member is_member_def list_ex_iff)
  have 2: "Num NaN \<in> set xs \<and> every_property pr object (split_dot path) True = Inr (Num NaN, found)
        \<longrightarrow> doesObjectHaveProperty pr object (Some path) (Some xs) = Inr False"
    using 1 by (simp add: doesObjectHaveProperty_def)
  have 3: "v \<noteq> Num NaN \<longrightarrow> array_includes xs v = list_ex (\<lambda>x. strict_equals x v) xs"
    by (simp add: array_includes_is_member is_member_def)
  have 4: "v = Undefined \<or> v = Null \<or> v = Bool b \<or> v = Str s
        \<longrightarrow> array_includes xs v = (v \<in> set xs)"
  proof
    assume v: "v = Undefined \<or> v = Null \<or> v = Bool b \<or> v = Str s"
    then have "same_value_zero x v = (x = v)" for x
      by (cases x) auto
    then show "array_includes xs v = (v \<in> set xs)"
      by (auto simp: array_includes_def list_ex_iff)
  qed
  have z: "same_value_zero x (Num NegZero) = (x = Num NegZero \<or> x = Num (Val 0))"
    "same_value_zero x (Num (Val 0)) = (x = Num NegZero \<or> x = Num (Val 0))" for x
  proof -
    show "same_value_zero x (Num NegZero) = (x = Num NegZero \<or> x = Num (Val 0))"
    proof (cases x)
      case (Num m)
      then show ?thesis by (cases m) auto
    qed simp_all
    show "same_value_zero x (Num (Val 0)) = (x = Num NegZero \<or> x = Num (Val 0))"
    proof (cases x)
      case (Num m)
      then show ?thesis by (cases m) auto
    qed simp_all
  qed
  have 5: "array_includes xs (Num NegZero) = (Num NegZero \<in> set xs \<or> Num (Val 0) \<in> set xs)"
    by (auto simp: array_includes_def list_ex_iff z)
  have 6: "array_includes xs (Num (Val 0)) = (Num NegZero \<in> set xs \<or> Num (Val 0) \<in> set xs)"
    by (auto simp: array_includes_def list_ex_iff z)
  have o: "same_value_zero x (Obj a ps) = (\<exists>qs. x = Obj a qs)" for x
    by (cases x) auto
  have 7: "array_includes xs (Obj a ps) = (\<exists>qs. Obj a qs \<in> set xs)"
    by (auto simp: array_includes_def list_ex_iff o)
  have 8: "get_prop pr object ''age'' = Inr w
        \<and> (required d = Single (Some ''age'') \<or> required d = Many [Some ''age''])
        \<and> required_writable d
        \<and> invalidValues d = Some [Num NaN]
        \<longrightarrow> descriptor_fails pr object d = (w = Num NaN \<or> w = Undefined \<or> w = Null)"
  proof
    assume a: "get_prop pr object ''age'' = Inr w
        \<and> (required d = Single (Some ''age'') \<or> required d = Many [Some ''age''])
        \<and> required_writable d
        \<and> invalidValues d = Some [Num NaN]"
    then have r: "required (wrap_required d) = Many [Some ''age'']"
      and i: "invalidValues (wrap_required d) = Some [Num NaN]"
      by (auto simp: wrap_required_def)
    have s: "same_value_zero (Num NaN) w = (w = Num NaN)"
      by (cases w) auto
    from a have asg: "required_assignable d"
      by (auto simp: required_assignable_def)
    show "descriptor_fails pr object d = (w = Num NaN \<or> w = Undefined \<or> w = Null)"
      using a s asg by (auto simp: descriptor_fails_def doesObjectHaveAny_def r i
          doesObjectHaveProperty_def array_includes_def)
  qed
  from 1 2 3 4 5 6 7 8 show ?thesis by blast
qed

text \<open>
  The object of the usage example, whose spouse has not-a-number as age, and invalid
  values of every kind.
\<close>

theorem nan_is_invalid_witness:
  "Num NaN \<in> set [Num NaN]
   \<and> every_property no_proto toValidate (split_dot ''spouse.age'') True = Inr (Num NaN, True)
   \<and> doesObjectHaveProperty no_proto toValidate (Some ''spouse.age'') (Some [Num NaN]) = Inr False
   \<and> Num (Val 26) \<noteq> Num NaN
   \<and> \<not> array_includes [Num NaN] (Num (Val 26))
   \<and> \<not> list_ex (\<lambda>x. strict_equals x (Num (Val 26))) [Num NaN]
   \<and> get_prop no_proto toValidate ''age'' = Inr (Num (Val 26))
   \<and> \<not> descriptor_fails no_proto toValidate
         \<lparr>required = Single (Some ''age''), invalidValues = Some [Num NaN], error = Undefined,
           required_writable = True\<rparr>
   \<and> get_prop no_proto (Obj 11 [(''name'', Str ''Jane''), (''age'', Num NaN)]) ''age''
       = Inr (Num NaN)
   \<and> descriptor_fails no_proto (Obj 11 [(''name'', Str ''Jane''), (''age'', Num NaN)])
         \<lparr>required = Many [Some ''age''], invalidValues = Some [Num NaN], error = Undefined,
           required_writable = True\<rparr>
   \<and> array_includes [Str ''a'', Num (Val 0), Obj 5 []] (Str ''a'')
   \<and> \<not> array_includes [Str ''a'', Num (Val 0), Obj 5 []] (Str ''b'')
   \<and> list_ex (\<lambda>x. strict_equals x (Str ''a'')) [Str ''a'', Num (Val 0), Obj 5 []]
   \<and> \<not> list_ex (\<lambda>x. strict_equals x (Str ''b'')) [Str ''a'', Num (Val 0), Obj 5 []]"
  using nan_is_invalid [where xs = "[Num NaN]" and pr = no_proto and object = toValidate
      and path = "''spouse.age''" and found = True and v = "Num (Val 26)" and w = "Num (Val 26)"
      and d = "\<lparr>required = Single (Some ''age''), invalidValues = Some [Num NaN], error = Undefined,
                 required_writable = True\<rparr>"]
    nan_is_invalid [where xs = "[Num NaN]" and pr = no_proto
      and object = "Obj 11 [(''name'', Str ''Jane''), (''age'', Num NaN)]"
      and path = "''age''" and found = True and v = "Num (Val 26)" and w = "Num NaN"
      and d = "\<lparr>required = Many [Some ''age''], invalidValues = Some [Num NaN], error = Undefined,
                 required_writable = True\<rparr>"]
    nan_is_invalid [where xs = "[Str ''a'', Num (Val 0), Obj 5 []]" and v = "Str ''a''"
      and s = "''a''"]
    nan_is_invalid [where xs = "[Str ''a'', Num (Val 0), Obj 5 []]" and v = "Str ''b''"
      and s = "''b''"]
  by (simp add: example_defs)

subsection \<open>C5: lazy runs\<close>

text \<open>
  C5. Whenever the complete run returns, the lazy run on the same arguments returns too,
  with the same \<open>valid\<close> flag and with the first error of the complete run, if there is
  one, as its only error, also when it is made on the descriptors as the complete run has
  left them. Whenever the lazy run returns, it has at most one error; it has none exactly
  when every descriptor passes, and exactly when it is valid; and its error is the entry
  of the first failing descriptor.
\<close>

theorem lazy_first_error:
  "(\<forall>r2 st2. validate pr object propertyDescriptors False st = (Inr r2, st2) \<longrightarrow>
      (\<exists>r1. fst (validate pr object propertyDescriptors True st) = Inr r1
            \<and> fst (validate pr object propertyDescriptors True st2) = Inr r1
            \<and> errors r1 = take 1 (errors r2) \<and> valid r1 = valid r2))
   \<and> (\<forall>r1. fst (validate pr object propertyDescriptors True st) = Inr r1 \<longrightarrow>
        length (errors r1) \<le> 1
        \<and> (errors r1 = []) = list_all (\<lambda>a. descriptor_passes pr object (st a)) propertyDescriptors
        \<and> valid r1 = (errors r1 = [])
        \<and> (\<forall>a. find (\<lambda>a. descriptor_fails pr object (st a)) propertyDescriptors = Some a \<longrightarrow>
              map Inr (errors r1) = [error_entry (wrap_required (st a))]))"
proof (intro conjI allI impI)
  fix r2 st2
  assume "validate pr object propertyDescriptors False st = (Inr r2, st2)"
  then have run: "some_descriptor pr object False propertyDescriptors \<lparr>valid = True, errors = []\<rparr> st
                  = (Inr r2, st2)"
    by (simp add: validate_def)
  then have nl: "fst (some_descriptor pr object False propertyDescriptors \<lparr>valid = True, errors = []\<rparr> st)
                 = Inr r2"
    by simp
  from run have "st2 = snd (some_descriptor pr object False propertyDescriptors
                              \<lparr>valid = True, errors = []\<rparr> st)"
    by simp
  then have "\<forall>x. wrap_required (st2 x) = wrap_required (st x)
                 \<and> required_assignable (st2 x) = required_assignable (st x)"
    by (simp only: store_after_run) simp
  then have again: "fst (validate pr object propertyDescriptors True st2)
                    = fst (validate pr object propertyDescriptors True st)"
    unfolding validate_def by (rule fst_some_descriptor_cong)
  from lazy_of_nonlazy [OF nl] nonlazy_shape [OF nl]
  have "\<exists>r1. fst (validate pr object propertyDescriptors True st) = Inr r1
            \<and> errors r1 = take 1 (errors r2) \<and> valid r1 = valid r2"
    by (auto simp: validate_def)
  with again
  show "\<exists>r1. fst (validate pr object propertyDescriptors True st) = Inr r1
            \<and> fst (validate pr object propertyDescriptors True st2) = Inr r1
            \<and> errors r1 = take 1 (errors r2) \<and> valid r1 = valid r2"
    by auto
next
  fix r1
  assume "fst (validate pr object propertyDescriptors True st) = Inr r1"
  then have run: "fst (some_descriptor pr object True propertyDescriptors \<lparr>valid = True, errors = []\<rparr> st) = Inr r1"
    by (simp add: validate_def)
  show "length (errors r1) \<le> 1"
    by (rule lazy_run(1) [OF run])
  show "(errors r1 = []) = list_all (\<lambda>a. descriptor_passes pr object (st a)) propertyDescriptors"
    by (rule lazy_run(2) [OF run])
  show "valid r1 = (errors r1 = [])"
    by (rule lazy_run(3) [OF run])
  fix a
  assume "find (\<lambda>a. descriptor_fails pr object (st a)) propertyDescriptors = Some a"
  then show "map Inr (errors r1) = [error_entry (wrap_required (st a))]"
    by (rule lazy_run(4) [OF run])
qed

text \<open>The usage example: the fourth descriptor, at address 3, is the first to fail.\<close>

theorem lazy_first_error_witness:
  "fst (validate no_proto toValidate [0, 1, 2, 3, 4] False (store_of requiredProperties)) =
     Inr \<lparr>valid = False,
          errors = [Supplied (Obj 13 [(''message'', Str ''spouse is required and must contain an age'')]),
                    Generated ''Object must contain a valid value for notThere or alsoNotThere'']\<rparr>
   \<and> fst (validate no_proto toValidate [0, 1, 2, 3, 4] True (store_of requiredProperties)) =
     Inr \<lparr>valid = False,
          errors = [Supplied (Obj 13 [(''message'', Str ''spouse is required and must contain an age'')])]\<rparr>
   \<and> fst (validate no_proto toValidate [0, 1, 2, 3, 4] True
          (snd (validate no_proto toValidate [0, 1, 2, 3, 4] False (store_of requiredProperties)))) =
     Inr \<lparr>valid = False,
          errors = [Supplied (Obj 13 [(''message'', Str ''spouse is required and must contain an age'')])]\<rparr>
   \<and> find (\<lambda>a. descriptor_fails no_proto toValidate (store_of requiredProperties a)) [0, 1, 2, 3, 4]
       = Some 3
   \<and> \<not> list_all (\<lambda>a. descriptor_passes no_proto toValidate (store_of requiredProperties a))
           [0, 1, 2, 3, 4]"
  using lazy_first_error [where pr = no_proto and object = toValidate
      and propertyDescriptors = "[0, 1, 2, 3, 4]" and st = "store_of requiredProperties"]
  by (simp add: example_defs prod_eq_iff)

subsection \<open>C6: one valid candidate suffices\<close>

text \<open>
  C6, as amended. For a validated value that is neither undefined nor null and none of
  whose property reads throws, and a descriptor with a non-empty list of paths, the
  evaluation returns true exactly when some candidate is valid; the descriptor passes
  exactly then, and fails exactly when no candidate is valid; and the candidates are
  taken in order up to the first valid one: what follows it is not looked at, even where
  looking at it would throw.
\<close>

theorem any_candidate:
  assumes "object \<noteq> Undefined" and "object \<noteq> Null" and "reads_return pr"
    and "paths \<noteq> []" and "required d = Many (map Some paths)"
  shows "doesObjectHaveAny pr object d =
           Inr (Bool (list_ex (candidate_valid pr object (invalidValues d)) paths))
       \<and> descriptor_passes pr object d = list_ex (candidate_valid pr object (invalidValues d)) paths
       \<and> descriptor_fails pr object d =
           list_all (\<lambda>p. \<not> candidate_valid pr object (invalidValues d) p) paths
       \<and> (required d' = Many (map Some pre @ Some p # rest)
            \<and> list_all (\<lambda>q. \<not> candidate_valid pr object (invalidValues d') q) pre
            \<and> candidate_valid pr object (invalidValues d') p
          \<longrightarrow> doesObjectHaveAny pr object d' = Inr (Bool True))"
proof -
  have w: "wrap_required d = d" and asg: "required_assignable d"
    using assms(5) by (simp_all add: wrap_required_def required_assignable_def)
  have 1: "doesObjectHaveAny pr object d =
           Inr (Bool (list_ex (candidate_valid pr object (invalidValues d)) paths))"
    using assms(4,5) some_required_exists [OF assms(3,1,2), of "invalidValues d" paths Null]
    by (simp add: doesObjectHaveAny_def)
  have 2: "descriptor_passes pr object d = list_ex (candidate_valid pr object (invalidValues d)) paths"
    using 1 by (simp add: descriptor_passes_def w asg)
  have 3: "descriptor_fails pr object d =
           list_all (\<lambda>p. \<not> candidate_valid pr object (invalidValues d) p) paths"
    using 1 by (simp add: descriptor_fails_def w asg list_ex_iff list_all_iff)
  have 4: "required d' = Many (map Some pre @ Some p # rest)
            \<and> list_all (\<lambda>q. \<not> candidate_valid pr object (invalidValues d') q) pre
            \<and> candidate_valid pr object (invalidValues d') p
          \<longrightarrow> doesObjectHaveAny pr object d' = Inr (Bool True)"
    using some_required_stops [OF assms(3,1,2), of "invalidValues d'" p pre rest Null]
    by (simp add: doesObjectHaveAny_def)
  from 1 2 3 4 show ?thesis by blast
qed

text \<open>
  The object of the test suite: neither \<^verbatim>\<open>notThere\<close> nor \<^verbatim>\<open>a.h\<close> is valid,
  \<^verbatim>\<open>a\<close> is, and the undefined path after it is not reached.
\<close>

theorem any_candidate_witness:
  "obj \<noteq> Undefined \<and> obj \<noteq> Null \<and> reads_return no_proto \<and> [''notThere'', ''a.h''] \<noteq> []
   \<and> doesObjectHaveAny no_proto obj
        \<lparr>required = Many (map Some [''notThere'', ''a.h'']), invalidValues = None,
          error = Undefined, required_writable = True\<rparr>
       = Inr (Bool False)
   \<and> \<not> candidate_valid no_proto obj None ''notThere''
   \<and> \<not> candidate_valid no_proto obj None ''a.h''
   \<and> candidate_valid no_proto obj None ''a''
   \<and> doesObjectHaveAny no_proto obj
        \<lparr>required = Many (map Some [''notThere''] @ Some ''a'' # [None]), invalidValues = None,
          error = Undefined, required_writable = True\<rparr>
       = Inr (Bool True)"
  using any_candidate [where object = obj and pr = no_proto and paths = "[''notThere'', ''a.h'']"
      and d = "\<lparr>required = Many (map Some [''notThere'', ''a.h'']), invalidValues = None,
                 error = Undefined, required_writable = True\<rparr>"
      and d' = "\<lparr>required = Many (map Some [''notThere''] @ Some ''a'' # [None]),
                  invalidValues = None, error = Undefined, required_writable = True\<rparr>"
      and pre = "[''notThere'']" and p = "''a''" and rest = "[None]"]
  by (simp add: example_defs candidate_valid_def reads_return_def resolve_def resolve_step_def
      is_member_def)

text \<open>
  C6 as stated fails on the validated value null: no candidate is valid, yet the
  descriptor does not fail, its evaluation throws. It fails as well where a read throws:
  the second candidate is valid, yet the descriptor does not pass.
\<close>

theorem no_verdict_when_reading_throws:
  "list_all (\<lambda>p. \<not> candidate_valid no_proto Null None p) [''a'']
   \<and> \<not> descriptor_fails no_proto Null
         \<lparr>required = Many [Some ''a''], invalidValues = None, error = Undefined,
           required_writable = True\<rparr>
   \<and> doesObjectHaveAny no_proto Null
         \<lparr>required = Many [Some ''a''], invalidValues = None, error = Undefined,
           required_writable = True\<rparr> = Inl TypeError
   \<and> list_ex (candidate_valid throwing_proto (Obj 0 [(''a'', Num (Val 1))]) None) [''secret'', ''a'']
   \<and> \<not> descriptor_passes throwing_proto (Obj 0 [(''a'', Num (Val 1))])
         \<lparr>required = Many [Some ''secret'', Some ''a''], invalidValues = None, error = Undefined,
           required_writable = True\<rparr>
   \<and> doesObjectHaveAny throwing_proto (Obj 0 [(''a'', Num (Val 1))])
         \<lparr>required = Many [Some ''secret'', Some ''a''], invalidValues = None, error = Undefined,
           required_writable = True\<rparr> = Inl (Thrown (Str ''denied''))"
  by (simp add: example_defs candidate_valid_def throwing_proto_def resolve_def resolve_step_def)

subsection \<open>C7: the default message\<close>

text \<open>
  C7, as amended. When the last path of a non-empty list is not empty and does not end in
  white space, the default message is the fixed prefix followed by the paths joined by
  the rule of the specification, and this is the only error of a run on a failing
  descriptor without an \<^verbatim>\<open>error\<close> field.
\<close>

theorem default_message_oxford:
  assumes "paths \<noteq> []" and "last paths \<noteq> []" and "\<not> is_white_space (last (last paths))"
  shows "default_message (map Some paths) =
           ''Object must contain a valid value for '' @ oxford_join paths
       \<and> (required (wrap_required (st a)) = Many (map Some paths) \<and> error (st a) = Undefined
            \<and> descriptor_fails pr object (st a)
          \<longrightarrow> fst (validate pr object [a] lazy st) =
                Inr \<lparr>valid = False,
                     errors = [Generated (''Object must contain a valid value for ''
                                           @ oxford_join paths)]\<rparr>)"
proof (intro conjI impI)
  show m: "default_message (map Some paths) =
           ''Object must contain a valid value for '' @ oxford_join paths"
    using assms by (rule default_message_join)
  assume a: "required (wrap_required (st a)) = Many (map Some paths) \<and> error (st a) = Undefined
            \<and> descriptor_fails pr object (st a)"
  have "error (wrap_required (st a)) = error (st a)"
    by (cases "required (st a)") (simp_all add: wrap_required_def)
  with a have e: "error (wrap_required (st a)) = Undefined" by simp
  from a obtain h where "doesObjectHaveAny pr object (wrap_required (st a)) = Inr h"
    and "\<not> truthy h" and "required_assignable (st a)"
    by (auto simp: descriptor_fails_def split: sum.splits)
  moreover from a e m have "error_entry (wrap_required (st a)) =
      Inr (Generated (''Object must contain a valid value for '' @ oxford_join paths))"
    by (simp add: error_entry_def)
  ultimately show "fst (validate pr object [a] lazy st) =
                Inr \<lparr>valid = False,
                     errors = [Generated (''Object must contain a valid value for ''
                                           @ oxford_join paths)]\<rparr>"
    by (simp add: validate_def fst_some_descriptor_Cons del: some_descriptor.simps(2))
qed

text \<open>The three paths of the test suite, and its single path given as a string.\<close>

theorem default_message_oxford_witness:
  "[''notThere'', ''alsoNotThere'', ''a.h''] \<noteq> []
   \<and> last [''notThere'', ''alsoNotThere'', ''a.h''] \<noteq> []
   \<and> \<not> is_white_space (last (last [''notThere'', ''alsoNotThere'', ''a.h'']))
   \<and> descriptor_fails no_proto obj
        \<lparr>required = Many [Some ''notThere'', Some ''alsoNotThere'', Some ''a.h''],
          invalidValues = None, error = Undefined, required_writable = True\<rparr>
   \<and> fst (validate no_proto obj [0] False
        (store_of [\<lparr>required = Many [Some ''notThere'', Some ''alsoNotThere'', Some ''a.h''],
                    invalidValues = None, error = Undefined, required_writable = True\<rparr>])) =
       Inr \<lparr>valid = False,
            errors = [Generated ''Object must contain a valid value for notThere, alsoNotThere, or a.h'']\<rparr>
   \<and> descriptor_fails no_proto obj
        \<lparr>required = Single (Some ''notThere''), invalidValues = None, error = Undefined, required_writable = True\<rparr>
   \<and> fst (validate no_proto obj [0] False
        (store_of [\<lparr>required = Single (Some ''notThere''), invalidValues = None,
                    error = Undefined, required_writable = True\<rparr>])) =
       Inr \<lparr>valid = False,
            errors = [Generated ''Object must contain a valid value for notThere'']\<rparr>"
  using default_message_oxford [where paths = "[''notThere'', ''alsoNotThere'', ''a.h'']"
      and pr = no_proto and object = obj and a = 0 and lazy = False
      and st = "store_of [\<lparr>required = Many [Some ''notThere'', Some ''alsoNotThere'', Some ''a.h''],
                    invalidValues = None, error = Undefined, required_writable = True\<rparr>]"]
    default_message_oxford [where paths = "[''notThere'']"
      and pr = no_proto and object = obj and a = 0 and lazy = False
      and st = "store_of [\<lparr>required = Single (Some ''notThere''), invalidValues = None,
                    error = Undefined, required_writable = True\<rparr>]"]
  by (simp add: example_defs)

text \<open>
  C7 as stated fails for a path that ends in a space: the message is trimmed, and the
  space of the path goes with it.
\<close>

theorem trailing_space_trimmed:
  "fst (validate no_proto (Obj 0 []) [0] False
         (store_of [\<lparr>required = Single (Some ''a ''), invalidValues = None,
                     error = Undefined, required_writable = True\<rparr>])) =
     Inr \<lparr>valid = False, errors = [Generated ''Object must contain a valid value for a'']\<rparr>
   \<and> ''Object must contain a valid value for a''
       \<noteq> ''Object must contain a valid value for '' @ oxford_join [''a '']"
  by (simp add: validator_defs no_proto_def Let_def)

subsection \<open>C8: normalisation in place\<close>

text \<open>
  C8, as amended. After every run, whether it returns or throws, the descriptor object
  at an address is changed exactly when the run has visited it, its \<^verbatim>\<open>required\<close>
  field was no array, and the field can be assigned to: the field then is the
  one-element array of its former value, and nothing else has changed. A visited
  descriptor whose field is an array already, or cannot be assigned to, and a descriptor
  that is not visited, are as they were. The run visits the descriptors up to and
  including the first at which it ends, where something throws or, in a lazy run, the
  descriptor fails; so a run that returns visits every descriptor, unless it is lazy and
  its result is invalid, when it visits those up to and including the first that does
  not pass.
\<close>

theorem normalization_in_place:
  "snd (validate pr object propertyDescriptors lazy st) x =
     (if x \<in> set (take (visited pr object lazy st propertyDescriptors) propertyDescriptors)
      then (case required (st x) of
              Single p \<Rightarrow>
                if required_writable (st x) then (st x)\<lparr>required := Many [p]\<rparr> else st x
            | Many paths \<Rightarrow> st x)
      else st x)
   \<and> visited pr object lazy st propertyDescriptors =
       min (length propertyDescriptors)
         (Suc (length (takeWhile
            (\<lambda>a. descriptor_passes pr object (st a)
                 \<or> descriptor_fails pr object (st a) \<and> \<not> lazy)
            propertyDescriptors)))
   \<and> (\<forall>r. fst (validate pr object propertyDescriptors lazy st) = Inr r \<longrightarrow>
        visited pr object lazy st propertyDescriptors =
          (if lazy \<and> \<not> valid r
           then Suc (length (takeWhile (\<lambda>a. descriptor_passes pr object (st a))
                               propertyDescriptors))
           else length propertyDescriptors))"
proof -
  have 1: "snd (validate pr object propertyDescriptors lazy st) x =
     (if x \<in> set (take (visited pr object lazy st propertyDescriptors) propertyDescriptors)
      then (case required (st x) of
              Single p \<Rightarrow>
                if required_writable (st x) then (st x)\<lparr>required := Many [p]\<rparr> else st x
            | Many paths \<Rightarrow> st x)
      else st x)"
    unfolding validate_def snd_some_descriptor
    by (cases "required (st x)") (simp_all add: wrap_required_def required_assignable_def)
  have "(\<not> descriptor_stops pr object lazy d)
        = (descriptor_passes pr object d \<or> descriptor_fails pr object d \<and> \<not> lazy)" for d
    by (simp add: descriptor_stops_def)
  then have 2: "visited pr object lazy st propertyDescriptors =
       min (length propertyDescriptors)
         (Suc (length (takeWhile
            (\<lambda>a. descriptor_passes pr object (st a)
                 \<or> descriptor_fails pr object (st a) \<and> \<not> lazy)
            propertyDescriptors)))"
    by (simp only: visited_def)
  have 4: "\<forall>r. fst (validate pr object propertyDescriptors lazy st) = Inr r \<longrightarrow>
        visited pr object lazy st propertyDescriptors =
          (if lazy \<and> \<not> valid r
           then Suc (length (takeWhile (\<lambda>a. descriptor_passes pr object (st a))
                               propertyDescriptors))
           else length propertyDescriptors)"
  proof (intro allI impI)
    fix r
    assume "fst (validate pr object propertyDescriptors lazy st) = Inr r"
    then have run: "fst (some_descriptor pr object lazy propertyDescriptors
                          \<lparr>valid = True, errors = []\<rparr> st) = Inr r"
      by (simp add: validate_def)
    show "visited pr object lazy st propertyDescriptors =
          (if lazy \<and> \<not> valid r
           then Suc (length (takeWhile (\<lambda>a. descriptor_passes pr object (st a))
                               propertyDescriptors))
           else length propertyDescriptors)"
    proof (cases lazy)
      case True
      with run visited_lazy [of pr object propertyDescriptors st r] show ?thesis by simp
    next
      case False
      with run visited_nonlazy [of pr object propertyDescriptors _ st r] show ?thesis by simp
    qed
  qed
  from 1 2 4 show ?thesis by blast
qed

text \<open>
  On the object of the test suite: a lazy run in which the first descriptor passes and
  is wrapped, the second fails and is an array already, the third is not visited; and a
  run that throws at its second descriptor, which has no \<^verbatim>\<open>required\<close> field, after
  having wrapped it, and does not visit the third.
\<close>

theorem normalization_in_place_witness:
  "fst (validate no_proto obj [0, 1, 2] True
     (store_of [\<lparr>required = Single (Some ''a''), invalidValues = None, error = Undefined,
                  required_writable = True\<rparr>,
                \<lparr>required = Many [Some ''x''], invalidValues = None, error = Undefined,
                  required_writable = True\<rparr>,
                \<lparr>required = Single (Some ''y''), invalidValues = None, error = Undefined,
                  required_writable = True\<rparr>]))
     = Inr \<lparr>valid = False, errors = [Generated ''Object must contain a valid value for x'']\<rparr>
   \<and> map (snd (validate no_proto obj [0, 1, 2] True
     (store_of [\<lparr>required = Single (Some ''a''), invalidValues = None, error = Undefined,
                  required_writable = True\<rparr>,
                \<lparr>required = Many [Some ''x''], invalidValues = None, error = Undefined,
                  required_writable = True\<rparr>,
                \<lparr>required = Single (Some ''y''), invalidValues = None, error = Undefined,
                  required_writable = True\<rparr>])))
       [0, 1, 2]
     = [\<lparr>required = Many [Some ''a''], invalidValues = None, error = Undefined,
          required_writable = True\<rparr>,
        \<lparr>required = Many [Some ''x''], invalidValues = None, error = Undefined,
          required_writable = True\<rparr>,
        \<lparr>required = Single (Some ''y''), invalidValues = None, error = Undefined,
          required_writable = True\<rparr>]
   \<and> fst (validate no_proto obj [0, 1, 2] False
     (store_of [\<lparr>required = Single (Some ''x''), invalidValues = None, error = Undefined,
                  required_writable = True\<rparr>,
                \<lparr>required = Single None, invalidValues = None, error = Undefined,
                  required_writable = True\<rparr>,
                \<lparr>required = Single (Some ''z''), invalidValues = None, error = Undefined,
                  required_writable = True\<rparr>]))
     = Inl TypeError
   \<and> map (snd (validate no_proto obj [0, 1, 2] False
     (store_of [\<lparr>required = Single (Some ''x''), invalidValues = None, error = Undefined,
                  required_writable = True\<rparr>,
                \<lparr>required = Single None, invalidValues = None, error = Undefined,
                  required_writable = True\<rparr>,
                \<lparr>required = Single (Some ''z''), invalidValues = None, error = Undefined,
                  required_writable = True\<rparr>])))
       [0, 1, 2]
     = [\<lparr>required = Many [Some ''x''], invalidValues = None, error = Undefined,
          required_writable = True\<rparr>,
        \<lparr>required = Many [None], invalidValues = None, error = Undefined,
          required_writable = True\<rparr>,
        \<lparr>required = Single (Some ''z''), invalidValues = None, error = Undefined,
          required_writable = True\<rparr>]"
  using normalization_in_place [where pr = no_proto and object = obj and lazy = True
      and propertyDescriptors = "[0, 1, 2]" and x = 0
      and st = "store_of [\<lparr>required = Single (Some ''a''), invalidValues = None, error = Undefined,
                  required_writable = True\<rparr>,
                \<lparr>required = Many [Some ''x''], invalidValues = None, error = Undefined,
                  required_writable = True\<rparr>,
                \<lparr>required = Single (Some ''y''), invalidValues = None, error = Undefined,
                  required_writable = True\<rparr>]"]
    normalization_in_place [where pr = no_proto and object = obj and lazy = False
      and propertyDescriptors = "[0, 1, 2]" and x = 1
      and st = "store_of [\<lparr>required = Single (Some ''x''), invalidValues = None, error = Undefined,
                  required_writable = True\<rparr>,
                \<lparr>required = Single None, invalidValues = None, error = Undefined,
                  required_writable = True\<rparr>,
                \<lparr>required = Single (Some ''z''), invalidValues = None, error = Undefined,
                  required_writable = True\<rparr>]"]
  by (simp add: example_defs visited_def descriptor_stops_def)

text \<open>
  C8 as stated fails in a lazy run: the descriptor after the first failing one keeps its
  path string.
\<close>

theorem lazy_leaves_rest_unwrapped:
  "fst (validate no_proto (Obj 0 []) [0, 1] True
         (store_of [\<lparr>required = Single (Some ''x''), invalidValues = None, error = Undefined, required_writable = True\<rparr>,
                    \<lparr>required = Single (Some ''y''), invalidValues = None, error = Undefined, required_writable = True\<rparr>])) =
     Inr \<lparr>valid = False, errors = [Generated ''Object must contain a valid value for x'']\<rparr>
   \<and> required (snd (validate no_proto (Obj 0 []) [0, 1] True
         (store_of [\<lparr>required = Single (Some ''x''), invalidValues = None, error = Undefined, required_writable = True\<rparr>,
                    \<lparr>required = Single (Some ''y''), invalidValues = None, error = Undefined, required_writable = True\<rparr>])) 1)
       = Single (Some ''y'')"
  by (simp add: validator_defs no_proto_def Let_def)

subsection \<open>C9: a descriptor without \<^verbatim>\<open>required\<close>\<close>

text \<open>
  C9, as amended. Let the list hold a descriptor without a \<^verbatim>\<open>required\<close> field. When
  the run is not lazy, or none of the descriptors before it fails, the validator throws;
  it is a type error that it throws when all the descriptors before it pass. When the run
  is lazy and a failing descriptor comes before it, all the descriptors before that one
  passing, the validator returns that failure as its only error, and the malformed
  descriptor, when it is not one of those before, is left as it was: it is not looked at.
\<close>

theorem absent_required_raises_when_reached:
  assumes "required (st a) = Single None"
  shows "((lazy \<longrightarrow> list_all (\<lambda>x. \<not> descriptor_fails pr object (st x)) pre) \<longrightarrow>
            (\<exists>e. fst (validate pr object (pre @ a # post) lazy st) = Inl e))
       \<and> (list_all (\<lambda>x. descriptor_passes pr object (st x)) pre \<longrightarrow>
            fst (validate pr object (pre @ a # post) lazy st) = Inl TypeError)
       \<and> (list_all (\<lambda>x. descriptor_passes pr object (st x)) pre
            \<and> descriptor_fails pr object (st b) \<longrightarrow>
            (\<exists>entry. error_entry (wrap_required (st b)) = Inr entry
               \<and> fst (validate pr object (pre @ b # mid @ a # post) True st)
                   = Inr \<lparr>valid = False, errors = [entry]\<rparr>)
            \<and> snd (validate pr object (pre @ b # mid @ a # post) True st) a = st a)"
proof (intro conjI impI)
  assume "lazy \<longrightarrow> list_all (\<lambda>x. \<not> descriptor_fails pr object (st x)) pre"
  from raises_after_prefix [OF assms this]
  show "\<exists>e. fst (validate pr object (pre @ a # post) lazy st) = Inl e"
    by (simp only: validate_def)
next
  assume "list_all (\<lambda>x. descriptor_passes pr object (st x)) pre"
  from type_error_after_passing [OF assms this]
  show "fst (validate pr object (pre @ a # post) lazy st) = Inl TypeError"
    by (simp only: validate_def)
next
  assume h: "list_all (\<lambda>x. descriptor_passes pr object (st x)) pre
            \<and> descriptor_fails pr object (st b)"
  from lazy_returns_at_first_failure [of pr object st b pre "mid @ a # post"
      "\<lparr>valid = True, errors = []\<rparr>"] h
  show "\<exists>entry. error_entry (wrap_required (st b)) = Inr entry
               \<and> fst (validate pr object (pre @ b # mid @ a # post) True st)
                   = Inr \<lparr>valid = False, errors = [entry]\<rparr>"
    by (simp add: validate_def del: some_descriptor.simps)
  from absent_required_throws [OF assms, of pr object] h
  have "a \<notin> set pre" and "a \<noteq> b"
    by (auto simp: list_all_iff)
  moreover from h have "visited pr object True st (pre @ b # mid @ a # post) = Suc (length pre)"
    by (simp add: visited_lazy_failure)
  ultimately show "snd (validate pr object (pre @ b # mid @ a # post) True st) a = st a"
    unfolding validate_def snd_some_descriptor by simp
qed

text \<open>
  On the object of the test suite: the malformed descriptor after one that passes, in a
  lazy run, and after one that fails, in a run that is not lazy and in a lazy one.
\<close>

theorem absent_required_witness:
  "required (store_of [\<lparr>required = Single (Some ''a''), invalidValues = None, error = Undefined,
                         required_writable = True\<rparr>,
                       \<lparr>required = Single None, invalidValues = None, error = Undefined,
                         required_writable = True\<rparr>] 1)
     = Single None
   \<and> list_all (\<lambda>x. descriptor_passes no_proto obj
         (store_of [\<lparr>required = Single (Some ''a''), invalidValues = None, error = Undefined,
                      required_writable = True\<rparr>,
                    \<lparr>required = Single None, invalidValues = None, error = Undefined,
                      required_writable = True\<rparr>] x)) [0]
   \<and> fst (validate no_proto obj ([0] @ 1 # []) True
         (store_of [\<lparr>required = Single (Some ''a''), invalidValues = None, error = Undefined,
                      required_writable = True\<rparr>,
                    \<lparr>required = Single None, invalidValues = None, error = Undefined,
                      required_writable = True\<rparr>]))
     = Inl TypeError
   \<and> descriptor_fails no_proto obj
         (store_of [\<lparr>required = Single (Some ''x''), invalidValues = None, error = Undefined,
                      required_writable = True\<rparr>,
                    \<lparr>required = Single None, invalidValues = None, error = Undefined,
                      required_writable = True\<rparr>] 0)
   \<and> (\<exists>e. fst (validate no_proto obj ([0] @ 1 # []) False
         (store_of [\<lparr>required = Single (Some ''x''), invalidValues = None, error = Undefined,
                      required_writable = True\<rparr>,
                    \<lparr>required = Single None, invalidValues = None, error = Undefined,
                      required_writable = True\<rparr>]))
     = Inl e)
   \<and> fst (validate no_proto obj ([] @ 0 # [] @ 1 # []) True
         (store_of [\<lparr>required = Single (Some ''x''), invalidValues = None, error = Undefined,
                      required_writable = True\<rparr>,
                    \<lparr>required = Single None, invalidValues = None, error = Undefined,
                      required_writable = True\<rparr>]))
     = Inr \<lparr>valid = False, errors = [Generated ''Object must contain a valid value for x'']\<rparr>
   \<and> snd (validate no_proto obj ([] @ 0 # [] @ 1 # []) True
         (store_of [\<lparr>required = Single (Some ''x''), invalidValues = None, error = Undefined,
                      required_writable = True\<rparr>,
                    \<lparr>required = Single None, invalidValues = None, error = Undefined,
                      required_writable = True\<rparr>])) 1
     = \<lparr>required = Single None, invalidValues = None, error = Undefined,
         required_writable = True\<rparr>"
  using absent_required_raises_when_reached [where pr = no_proto and object = obj and lazy = True
      and pre = "[0]" and a = 1 and post = "[]"
      and st = "store_of [\<lparr>required = Single (Some ''a''), invalidValues = None, error = Undefined,
                      required_writable = True\<rparr>,
                    \<lparr>required = Single None, invalidValues = None, error = Undefined,
                      required_writable = True\<rparr>]"]
    absent_required_raises_when_reached [where pr = no_proto and object = obj and lazy = False
      and pre = "[0]" and a = 1 and post = "[]" and b = 0 and mid = "[]"
      and st = "store_of [\<lparr>required = Single (Some ''x''), invalidValues = None, error = Undefined,
                      required_writable = True\<rparr>,
                    \<lparr>required = Single None, invalidValues = None, error = Undefined,
                      required_writable = True\<rparr>]"]
    absent_required_raises_when_reached [where pr = no_proto and object = obj and lazy = True
      and pre = "[]" and a = 1 and post = "[]" and b = 0 and mid = "[]"
      and st = "store_of [\<lparr>required = Single (Some ''x''), invalidValues = None, error = Undefined,
                      required_writable = True\<rparr>,
                    \<lparr>required = Single None, invalidValues = None, error = Undefined,
                      required_writable = True\<rparr>]"]
  by (simp add: example_defs)

text \<open>
  C9 as stated fails in a lazy run after a failing descriptor: the run returns and the
  malformed descriptor is never looked at.
\<close>

theorem lazy_skips_absent_required:
  "fst (validate no_proto (Obj 0 []) [0, 1] True
         (store_of [\<lparr>required = Single (Some ''x''), invalidValues = None, error = Undefined, required_writable = True\<rparr>,
                    \<lparr>required = Single None, invalidValues = None, error = Undefined, required_writable = True\<rparr>])) =
     Inr \<lparr>valid = False, errors = [Generated ''Object must contain a valid value for x'']\<rparr>"
  by (simp add: validator_defs no_proto_def Let_def)

subsection \<open>C10: the empty list of paths\<close>

text \<open>
  C10. For every validated value, null included, a descriptor whose \<^verbatim>\<open>required\<close>
  field is the empty array evaluates to null and so fails, and without an \<^verbatim>\<open>error\<close>
  field the entry appended is the message without any path and without a space at its end.
\<close>

theorem empty_required_fails:
  assumes "required (st a) = Many []"
  shows "doesObjectHaveAny pr object (st a) = Inr Null
       \<and> descriptor_fails pr object (st a)
       \<and> (error (st a) = Undefined \<longrightarrow>
            fst (validate pr object [a] lazy st) =
              Inr \<lparr>valid = False,
                   errors = [Generated ''Object must contain a valid value for'']\<rparr>)"
proof -
  have w: "wrap_required (st a) = st a" and asg: "required_assignable (st a)"
    using assms by (simp_all add: wrap_required_def required_assignable_def)
  have 1: "doesObjectHaveAny pr object (st a) = Inr Null"
    using assms by (simp add: doesObjectHaveAny_def)
  have 2: "descriptor_fails pr object (st a)"
    using 1 by (simp add: descriptor_fails_def w asg)
  have m: "default_message [] = ''Object must contain a valid value for''"
    by (simp add: default_message_def trim_def is_white_space_def)
  have 3: "error (st a) = Undefined \<longrightarrow>
            fst (validate pr object [a] lazy st) =
              Inr \<lparr>valid = False,
                   errors = [Generated ''Object must contain a valid value for'']\<rparr>"
    using 1 assms m
    by (simp add: validate_def fst_some_descriptor_Cons w asg error_entry_def
        del: some_descriptor.simps(2))
  from 1 2 3 show ?thesis by blast
qed

text \<open>The empty list on the validated value null.\<close>

theorem empty_required_fails_witness:
  "required (store_of [\<lparr>required = Many [], invalidValues = None, error = Undefined, required_writable = True\<rparr>] 0) = Many []
   \<and> error (store_of [\<lparr>required = Many [], invalidValues = None, error = Undefined, required_writable = True\<rparr>] 0) = Undefined
   \<and> doesObjectHaveAny no_proto Null
        (store_of [\<lparr>required = Many [], invalidValues = None, error = Undefined, required_writable = True\<rparr>] 0) = Inr Null
   \<and> fst (validate no_proto Null [0] False
        (store_of [\<lparr>required = Many [], invalidValues = None, error = Undefined, required_writable = True\<rparr>])) =
       Inr \<lparr>valid = False, errors = [Generated ''Object must contain a valid value for'']\<rparr>"
  using empty_required_fails [where pr = no_proto and object = Null and lazy = False and a = 0
      and st = "store_of [\<lparr>required = Many [], invalidValues = None, error = Undefined, required_writable = True\<rparr>]"]
  by (simp add: example_defs)


end
